theory Spec2Isabelle
  imports Main "HOL-Library.AList"
begin

section \<open>The plugin-hub triage bot (src/index.ts)\<close>

text \<open>
  A shallow embedding of the two webhook handlers of \<^verbatim>\<open>src/index.ts\<close>. The state of the
  issue on GitHub (its labels and comments) is passed explicitly, and every \<^verbatim>\<open>throw\<close> or
  rejected promise is a \<open>Failed\<close> outcome that keeps the state reached so far.
\<close>

subsection \<open>JavaScript strings\<close>

text \<open>
  A JavaScript string is a sequence of UTF-16 code units, and \<^verbatim>\<open>startsWith\<close>,
  \<^verbatim>\<open>split\<close>, \<^verbatim>\<open>replace\<close>, \<^verbatim>\<open>==\<close> and a regular expression without the
  \<^verbatim>\<open>u\<close> flag all work on code units. A string is modelled as the list of its code units,
  each a natural number (a JavaScript string only holds numbers below 65536; nothing below
  depends on that bound). \<open>js\<close> gives the code units of a literal of the source.
\<close>

type_synonym jstring = "nat list"

definition js :: "string \<Rightarrow> jstring" where
  "js s = map of_char s"

text \<open>The code units the source names: line feed, carriage return, the line separator
  U+2028, the paragraph separator U+2029, and the characters \<^verbatim>\<open>=\<close>, \<^verbatim>\<open>/\<close> and
  \<^verbatim>\<open>.\<close>.\<close>

abbreviation LF :: nat where
  "LF \<equiv> 10"

abbreviation CR :: nat where
  "CR \<equiv> 13"

abbreviation LS :: nat where
  "LS \<equiv> 8232"

abbreviation PS :: nat where
  "PS \<equiv> 8233"

abbreviation EQUALS :: nat where
  "EQUALS \<equiv> 61"

abbreviation SLASH :: nat where
  "SLASH \<equiv> 47"

abbreviation DOT :: nat where
  "DOT \<equiv> 46"

subsection \<open>Constants (lines 5--8, 103)\<close>

definition PLUGIN_CHANGE :: jstring where
  "PLUGIN_CHANGE = js ''plugin change''"

definition PACKAGE_CHANGE :: jstring where
  "PACKAGE_CHANGE = js ''package change''"

definition DEPENDENCY_CHANGE :: jstring where
  "DEPENDENCY_CHANGE = js ''dependency change''"

definition READY_TO_MERGE :: jstring where
  "READY_TO_MERGE = js ''ready to merge''"

definition marker :: jstring where
  "marker = js ''<!-- rlphc -->''"

subsection \<open>JavaScript string operations used by the handlers\<close>

text \<open>\<^verbatim>\<open>s.startsWith(p)\<close>.\<close>

fun startsWith :: "jstring \<Rightarrow> jstring \<Rightarrow> bool" where
  "startsWith s [] = True"
| "startsWith [] (p # ps) = False"
| "startsWith (c # s) (p # ps) = (c = p \<and> startsWith s ps)"

text \<open>
  \<^verbatim>\<open>s.replace(pat, rep)\<close> with a string pattern: only the first occurrence is replaced.
  The handlers call it with the replacement \<^verbatim>\<open>""\<close>, which has no \<^verbatim>\<open>$\<close> patterns.
\<close>

fun replace_first :: "jstring \<Rightarrow> jstring \<Rightarrow> jstring \<Rightarrow> jstring" where
  "replace_first [] pat rep = (if pat = [] then rep else [])"
| "replace_first (c # s) pat rep =
     (if startsWith (c # s) pat then rep @ drop (length pat) (c # s)
      else c # replace_first s pat rep)"

text \<open>\<^verbatim>\<open>s.split("\n")\<close>: the pieces between line feeds; the empty string has one piece.\<close>

fun split_lines :: "jstring \<Rightarrow> jstring list" where
  "split_lines [] = [[]]"
| "split_lines (c # s) =
     (if c = LF then [] # split_lines s
      else (case split_lines s of
              [] \<Rightarrow> [[c]]
            | l # ls \<Rightarrow> (c # l) # ls))"

text \<open>\<^verbatim>\<open>xs.join(sep)\<close> on an array of strings.\<close>

fun join :: "jstring \<Rightarrow> jstring list \<Rightarrow> jstring" where
  "join sep [] = []"
| "join sep [x] = x"
| "join sep (x # y # ys) = x @ sep @ join sep (y # ys)"

text \<open>
  A property read inside a template literal or passed to \<^verbatim>\<open>RegExp.exec\<close>: a missing
  property is \<^verbatim>\<open>undefined\<close>, which both convert to the string \<^verbatim>\<open>"undefined"\<close>.
\<close>

definition js_string :: "jstring option \<Rightarrow> jstring" where
  "js_string v = (case v of None \<Rightarrow> (js ''undefined'') | Some s \<Rightarrow> s)"

text \<open>
  The dot of a regular expression (without the \<^verbatim>\<open>s\<close> flag) matches every code unit but
  the four line terminators of the language.
\<close>

definition line_terminator :: "nat \<Rightarrow> bool" where
  "line_terminator c = (c = LF \<or> c = CR \<or> c = LS \<or> c = PS)"

subsection \<open>Plain objects used as dictionaries\<close>

text \<open>
  \<^verbatim>\<open>{}\<close> with \<^verbatim>\<open>obj[k] = v\<close>, \<^verbatim>\<open>obj[k]\<close> and \<^verbatim>\<open>Object.keys(obj)\<close>: an association list
  of the object's own properties in insertion order. An assignment to the key
  \<^verbatim>\<open>__proto__\<close> runs the setter inherited from \<^verbatim>\<open>Object.prototype\<close>, which ignores a
  string or a boolean: no own property is created. (JavaScript lists keys that are array
  indices first, in ascending order; the source only reads values by key and counts keys, so
  the order of \<open>js_keys\<close> is not what JavaScript prints.)
\<close>

type_synonym 'v js_object = "(jstring \<times> 'v) list"

definition js_set :: "'v js_object \<Rightarrow> jstring \<Rightarrow> 'v \<Rightarrow> 'v js_object" where
  "js_set obj k v = (if k = js ''__proto__'' then obj else AList.update k v obj)"

definition js_get :: "'v js_object \<Rightarrow> jstring \<Rightarrow> 'v option" where
  "js_get obj k = map_of obj k"

definition js_keys :: "'v js_object \<Rightarrow> jstring list" where
  "js_keys obj = map fst obj"

subsection \<open>readKV (lines 63--69)\<close>

text \<open>
  \<^verbatim>\<open>/([^=]+)=(.*)/\<close> tried at the start of \<open>s\<close>: the greedy first group takes the whole
  run of characters other than \<^verbatim>\<open>=\<close>; it must be non-empty and an \<^verbatim>\<open>=\<close> must follow
  (a shorter run is followed by a character of the run, never by \<^verbatim>\<open>=\<close>, so backtracking finds
  nothing more). The second group then runs to the first line terminator.
\<close>

definition kv_match_here :: "jstring \<Rightarrow> (jstring \<times> jstring) option" where
  "kv_match_here s =
     (let k = takeWhile (\<lambda>c. c \<noteq> EQUALS) s in
      if k = [] then None
      else (case dropWhile (\<lambda>c. c \<noteq> EQUALS) s of
              [] \<Rightarrow> None
            | e # v \<Rightarrow> Some (k, takeWhile (\<lambda>c. \<not> line_terminator c) v)))"

text \<open>\<^verbatim>\<open>/([^=]+)=(.*)/.exec(s)\<close>: the match at the leftmost position that has one.\<close>

fun kv_exec :: "jstring \<Rightarrow> (jstring \<times> jstring) option" where
  "kv_exec [] = None"
| "kv_exec (c # s) =
     (case kv_match_here (c # s) of
        Some m \<Rightarrow> Some m
      | None \<Rightarrow> kv_exec s)"

definition readKV :: "jstring \<Rightarrow> jstring js_object" where
  "readKV data =
     foldl (\<lambda>acc val. js_set acc (fst (the val)) (snd (the val))) []
       (filter (\<lambda>i. i \<noteq> None) (map kv_exec (split_lines data)))"

subsection \<open>extractURL (lines 72--79)\<close>

datatype error =
    Thrown jstring
  | HttpError jstring
  | TypeError

text \<open>\<open>strip_prefix p s\<close> is the rest of \<open>s\<close> after the literal \<open>p\<close>, when \<open>s\<close> starts with it.\<close>

definition strip_prefix :: "jstring \<Rightarrow> jstring \<Rightarrow> jstring option" where
  "strip_prefix p s = (if startsWith s p then Some (drop (length p) s) else None)"

text \<open>\<^verbatim>\<open>.git\<close> at the start of \<open>s\<close>; the dot is not escaped in the source and matches any
  character but a line terminator.\<close>

definition dot_git :: "jstring \<Rightarrow> bool" where
  "dot_git s = (case s of [] \<Rightarrow> False | c # r \<Rightarrow> \<not> line_terminator c \<and> startsWith r (js ''git''))"

text \<open>
  The greedy group \<^verbatim>\<open>([^.]+)\<close> followed by \<^verbatim>\<open>.git\<close>: the longest run of \<open>n\<close> characters
  is tried first, then the shorter ones down to one character.
\<close>

fun repo_match :: "nat \<Rightarrow> jstring \<Rightarrow> jstring option" where
  "repo_match 0 s = None"
| "repo_match (Suc n) s =
     (if dot_git (drop (Suc n) s) then Some (take (Suc n) s) else repo_match n s)"

text \<open>
  \<^verbatim>\<open>/https:\/\/github\.com\/([^/]+)\/([^.]+).git/\<close> tried at the start of \<open>s\<close>. The group
  \<^verbatim>\<open>([^/]+)\<close> takes the whole run of characters other than \<^verbatim>\<open>/\<close>, and a \<^verbatim>\<open>/\<close> must follow
  (no shorter run is followed by one).
\<close>

definition url_match_here :: "jstring \<Rightarrow> (jstring \<times> jstring) option" where
  "url_match_here s =
     (case strip_prefix (js ''https://github.com/'') s of
        None \<Rightarrow> None
      | Some s1 \<Rightarrow>
          (let user = takeWhile (\<lambda>c. c \<noteq> SLASH) s1 in
           if user = [] then None
           else (case dropWhile (\<lambda>c. c \<noteq> SLASH) s1 of
                   [] \<Rightarrow> None
                 | sl # s2 \<Rightarrow>
                     (case repo_match (length (takeWhile (\<lambda>c. c \<noteq> DOT) s2)) s2 of
                        None \<Rightarrow> None
                      | Some repo \<Rightarrow> Some (user, repo)))))"

fun url_exec :: "jstring \<Rightarrow> (jstring \<times> jstring) option" where
  "url_exec [] = None"
| "url_exec (c # s) =
     (case url_match_here (c # s) of
        Some m \<Rightarrow> Some m
      | None \<Rightarrow> url_exec s)"

definition extractURL :: "jstring \<Rightarrow> error + (jstring \<times> jstring)" where
  "extractURL cloneURL =
     (case url_exec cloneURL of
        None \<Rightarrow>
          Inl (Thrown (js ''Plugin repository must be a github https clone url, not `''
                         @ cloneURL @ js ''`''))
      | Some (user, repo) \<Rightarrow> Inr (user, repo))"

subsection \<open>The issue on GitHub and the API calls that change it\<close>

record comment =
  comment_id :: nat
  comment_body :: jstring

record github =
  issue_labels :: "jstring set"
  issue_comments :: "comment list"

text \<open>
  The result of running a handler, or a part of one, on the issue: it completed, or an error
  was thrown after the changes made so far.
\<close>

datatype outcome =
    Done github
  | Failed error github

definition and_then :: "outcome \<Rightarrow> (github \<Rightarrow> outcome) \<Rightarrow> outcome" where
  "and_then r f = (case r of Done gh \<Rightarrow> f gh | Failed e gh \<Rightarrow> Failed e gh)"

fun state_of :: "outcome \<Rightarrow> github" where
  "state_of (Done gh) = gh"
| "state_of (Failed e gh) = gh"

text \<open>
  Modelled from the spec: the issue label API of GitHub (section 6), which is not part of the
  repository. Labels are presence or absence facts on an issue; adding labels that are already
  present changes nothing and is no error.
\<close>

definition addLabels :: "jstring list \<Rightarrow> github \<Rightarrow> outcome" where
  "addLabels ls gh = Done (gh\<lparr>issue_labels := issue_labels gh \<union> set ls\<rparr>)"

text \<open>
  Modelled from the spec: removing a single named label (section 6); the request fails when
  the label is not on the issue.
\<close>

definition removeLabel :: "jstring \<Rightarrow> github \<Rightarrow> outcome" where
  "removeLabel name gh =
     (if name \<in> issue_labels gh
      then Done (gh\<lparr>issue_labels := issue_labels gh - {name}\<rparr>)
      else Failed (HttpError (js ''Label does not exist'')) gh)"

text \<open>
  Modelled from the spec: the comment API of GitHub (section 6). A new comment is appended to
  the issue under an id no comment of the issue has; an update replaces the body of the comment
  with the given id.
\<close>

definition fresh_id :: "comment list \<Rightarrow> nat" where
  "fresh_id cs = Suc (fold max (map comment_id cs) 0)"

definition createComment :: "jstring \<Rightarrow> github \<Rightarrow> outcome" where
  "createComment body gh =
     Done (gh\<lparr>issue_comments :=
       issue_comments gh @ [\<lparr>comment_id = fresh_id (issue_comments gh), comment_body = body\<rparr>]\<rparr>)"

definition updateComment :: "nat \<Rightarrow> jstring \<Rightarrow> github \<Rightarrow> outcome" where
  "updateComment cid body gh =
     Done (gh\<lparr>issue_comments :=
       map (\<lambda>c. if comment_id c = cid then c\<lparr>comment_body := body\<rparr> else c)
         (issue_comments gh)\<rparr>)"

subsection \<open>setHasLabel (lines 28--34)\<close>

text \<open>
  The closure of the source reads \<open>labels\<close>, the set of label names listed once at the start
  of the handler, and calls the API on the issue.
\<close>

definition setHasLabel :: "jstring set \<Rightarrow> bool \<Rightarrow> jstring \<Rightarrow> github \<Rightarrow> outcome" where
  "setHasLabel labels condition label gh =
     (if condition \<and> label \<notin> labels then addLabels [label] gh
      else if \<not> condition \<and> label \<in> labels then removeLabel label gh
      else Done gh)"

subsection \<open>The pull request handler (lines 22--112)\<close>

record changed_file =
  filename :: jstring
  status :: jstring
  raw_url :: jstring
  previous_filename :: "jstring option"

text \<open>
  What one delivery of a pull request event reads besides the issue: the file list of the
  pull request, the base repository of the context, and the content behind each URL
  (\<open>None\<close> when the request fails).
\<close>

record pull_request_event =
  pr_files :: "changed_file list"
  repo_owner :: jstring
  repo_name :: jstring
  web :: "jstring \<Rightarrow> jstring option"

text \<open>Lines 38--52: the three arrays, filled in the order of the file list.\<close>

definition classify ::
  "changed_file list \<Rightarrow> changed_file list \<times> changed_file list \<times> changed_file list" where
  "classify fs =
     foldl (\<lambda>(pluginFiles, dependencyFiles, otherFiles) f.
        if startsWith (filename f) (js ''plugins/'') then (pluginFiles @ [f], dependencyFiles, otherFiles)
        else if filename f = js ''package/verification-template/build.gradle''
              \<or> filename f = js ''package/verification-template/gradle/verification-metadata.xml''
        then (pluginFiles, dependencyFiles @ [f], otherFiles)
        else (pluginFiles, dependencyFiles, otherFiles @ [f]))
       ([], [], []) fs"

definition request :: "pull_request_event \<Rightarrow> jstring \<Rightarrow> error + jstring" where
  "request ev url = (case web ev url of None \<Rightarrow> Inl (HttpError url) | Some data \<Rightarrow> Inr data)"

definition bind_result :: "error + 'a \<Rightarrow> ('a \<Rightarrow> error + 'b) \<Rightarrow> error + 'b" where
  "bind_result r f = (case r of Inl e \<Rightarrow> Inl e | Inr x \<Rightarrow> f x)"

definition master_url :: "pull_request_event \<Rightarrow> jstring \<Rightarrow> jstring" where
  "master_url ev pluginName =
     js ''https://github.com/'' @ repo_owner ev @ js ''/'' @ repo_name ev
       @ js ''/raw/master/plugins/'' @ pluginName"

definition compare_link ::
  "jstring js_object \<Rightarrow> jstring js_object \<Rightarrow> jstring \<times> jstring \<Rightarrow> jstring \<Rightarrow> jstring" where
  "compare_link oldPlugin newPlugin oldPluginURL user =
     js ''['' @ js_string (js_get oldPlugin (js ''commit'')) @ js ''...''
       @ js_string (js_get newPlugin (js ''commit''))
       @ js ''](https://github.com/'' @ fst oldPluginURL @ js ''/'' @ snd oldPluginURL
       @ js ''/compare/'' @ js_string (js_get oldPlugin (js ''commit'')) @ js ''...'' @ user @ js '':''
       @ js_string (js_get newPlugin (js ''commit'')) @ js '')''"

text \<open>Lines 58--97: the text for one plugin file.\<close>

definition plugin_text :: "pull_request_event \<Rightarrow> changed_file \<Rightarrow> error + jstring" where
  "plugin_text ev file =
     (let pluginName = replace_first (filename file) (js ''plugins/'') [] in
      if status file = js ''removed'' then Inr (js ''Removed `'' @ pluginName @ js ''` plugin'')
      else
        bind_result (request ev (raw_url file)) (\<lambda>res.
        let newPlugin = readKV res in
        bind_result (extractURL (js_string (js_get newPlugin (js ''repository'')))) (\<lambda>(user, repo).
        if status file = js ''modified'' then
          bind_result (request ev (master_url ev pluginName)) (\<lambda>res'.
          let oldPlugin = readKV res' in
          bind_result (extractURL (js_string (js_get oldPlugin (js ''repository'')))) (\<lambda>oldPluginURL.
          Inr (js ''`'' @ pluginName @ js ''`: ''
                 @ compare_link oldPlugin newPlugin oldPluginURL user)))
        else if status file = js ''added'' then
          Inr (js ''New plugin `'' @ pluginName @ js ''`: https://github.com/'' @ user @ js ''/'' @ repo
                 @ js ''/tree/'' @ js_string (js_get newPlugin (js ''commit'')))
        else if status file = js ''renamed'' then
          (case previous_filename file of
             None \<Rightarrow> Inl TypeError
           | Some previous \<Rightarrow>
               (let oldPluginName = replace_first previous (js ''plugins/'') [] in
                bind_result (request ev (master_url ev oldPluginName)) (\<lambda>res'.
                let oldPlugin = readKV res' in
                bind_result (extractURL (js_string (js_get oldPlugin (js ''repository''))))
                  (\<lambda>oldPluginURL.
                Inr (js ''`'' @ oldPluginName @ js ''` renamed to `'' @ pluginName
                       @ js ''`; this will cause all current installs to become uninstalled.\<newline>''
                       @ compare_link oldPlugin newPlugin oldPluginURL user)))))
        else Inr (js ''What is a `'' @ status file @ js ''`?''))))"

text \<open>
  \<^verbatim>\<open>await Promise.all(...)\<close>: the array of the results in the order of the input, or a
  rejection when one of the promises rejects. The promises only read, so whether the handler
  fails and the state it leaves do not depend on their timing. When several reject,
  JavaScript reports the one that rejects first in time; the model reports the first one in
  the order of the list, and the theorems below only say that the error is that of some
  plugin file.
\<close>

fun promise_all :: "(error + 'a) list \<Rightarrow> error + 'a list" where
  "promise_all [] = Inr []"
| "promise_all (Inl e # rs) = Inl e"
| "promise_all (Inr x # rs) =
     (case promise_all rs of Inl e \<Rightarrow> Inl e | Inr xs \<Rightarrow> Inr (x # xs))"

text \<open>Lines 103--111: the sticky comment is updated, or created when there is text for it.\<close>

definition upsert_comment :: "jstring \<Rightarrow> github \<Rightarrow> outcome" where
  "upsert_comment difftext gh =
     (let body = marker @ js ''\<newline>'' @ difftext in
      case find (\<lambda>c. startsWith (comment_body c) marker) (issue_comments gh) of
        Some sticky \<Rightarrow> updateComment (comment_id sticky) body gh
      | None \<Rightarrow> if difftext \<noteq> [] then createComment body gh else Done gh)"

definition pull_request :: "pull_request_event \<Rightarrow> github \<Rightarrow> outcome" where
  "pull_request ev gh =
     (let labels = issue_labels gh in
      and_then (setHasLabel labels False READY_TO_MERGE gh) (\<lambda>gh.
      case classify (pr_files ev) of (pluginFiles, dependencyFiles, otherFiles) \<Rightarrow>
      and_then (setHasLabel labels (length pluginFiles > 0) PLUGIN_CHANGE gh) (\<lambda>gh.
      and_then (setHasLabel labels (length dependencyFiles > 0) DEPENDENCY_CHANGE gh) (\<lambda>gh.
      and_then (setHasLabel labels (length otherFiles > 0) PACKAGE_CHANGE gh) (\<lambda>gh.
      case promise_all (map (plugin_text ev) pluginFiles) of
        Inl e \<Rightarrow> Failed e gh
      | Inr texts \<Rightarrow>
          (let difftext = join (js ''\<newline>\<newline>'') texts;
               difftext = (if length dependencyFiles > 0 \<or> length otherFiles > 0
                           then js ''**Includes non-plugin changes**\<newline>\<newline>'' @ difftext
                           else difftext)
           in upsert_comment difftext gh))))))"

subsection \<open>The review handler (lines 114--149)\<close>

record review =
  user_login :: jstring
  state :: jstring
  body :: jstring

record review_event =
  reviews :: "review list"
  memberList :: "jstring list"

text \<open>Lines 129--136: the decisions of the team members, in the order of the reviews.\<close>

definition reviewStates_of :: "review list \<Rightarrow> jstring set \<Rightarrow> bool js_object" where
  "reviewStates_of rs members =
     foldl (\<lambda>reviewStates r.
        let approved = (state r = js ''APPROVED'' \<or> body r = js ''lgtm'') in
        if approved \<or> (\<not> approved \<and> state r \<noteq> js ''COMMENTED'')
        then js_set reviewStates (user_login r) approved
        else reviewStates)
       [] (filter (\<lambda>r. user_login r \<in> members) rs)"

definition pull_request_review_submitted :: "review_event \<Rightarrow> github \<Rightarrow> outcome" where
  "pull_request_review_submitted ev gh =
     (let labels = issue_labels gh in
      if PLUGIN_CHANGE \<notin> labels then Done gh
      else if length (reviews ev) \<le> 0 then Done gh
      else
        (let members = set (memberList ev);
             reviewStates = reviewStates_of (reviews ev) members;
             unapproved = filter (\<lambda>k. js_get reviewStates k \<noteq> Some True) (js_keys reviewStates)
         in if length unapproved > 0
            then (if READY_TO_MERGE \<in> labels then removeLabel READY_TO_MERGE gh else Done gh)
            else if length (js_keys reviewStates) \<noteq> 0
            then (if READY_TO_MERGE \<notin> labels then addLabels [READY_TO_MERGE] gh else Done gh)
            else Done gh))"

subsection \<open>Sequences of deliveries\<close>

datatype event =
    PullRequest pull_request_event
  | ReviewSubmitted review_event

fun handle :: "event \<Rightarrow> github \<Rightarrow> outcome" where
  "handle (PullRequest ev) gh = pull_request ev gh"
| "handle (ReviewSubmitted ev) gh = pull_request_review_submitted ev gh"

text \<open>Deliveries handled one after the other; a failed one leaves the state it reached.\<close>

fun deliveries :: "event list \<Rightarrow> github \<Rightarrow> github" where
  "deliveries [] gh = gh"
| "deliveries (ev # evs) gh = deliveries evs (state_of (handle ev gh))"

subsection \<open>The decision of a review, in the words of the specification\<close>

text \<open>
  Section 4.5, step 4: a review is decisive when its state is \<^verbatim>\<open>APPROVED\<close> or its body is
  exactly \<^verbatim>\<open>lgtm\<close> (an approval), or when its state is anything other than
  \<^verbatim>\<open>COMMENTED\<close> (a rejection); every other review is not decisive.
\<close>

definition decision :: "review \<Rightarrow> bool option" where
  "decision r =
     (if state r = js ''APPROVED'' \<or> body r = js ''lgtm'' then Some True
      else if state r \<noteq> js ''COMMENTED'' then Some False
      else None)"

text \<open>The decision of the last decisive review of the team member \<open>k\<close>, if there is one.\<close>

definition last_decision :: "review list \<Rightarrow> jstring set \<Rightarrow> jstring \<Rightarrow> bool option" where
  "last_decision rs members k =
     (let ds = filter (\<lambda>r. user_login r \<in> members \<and> user_login r = k \<and> decision r \<noteq> None) rs
      in if ds = [] then None else decision (last ds))"

text \<open>The body of the loop of lines 131--136 on its own, for the proofs about the fold.\<close>

definition review_step :: "bool js_object \<Rightarrow> review \<Rightarrow> bool js_object" where
  "review_step reviewStates r =
     (let approved = (state r = js ''APPROVED'' \<or> body r = js ''lgtm'') in
        if approved \<or> (\<not> approved \<and> state r \<noteq> js ''COMMENTED'')
        then js_set reviewStates (user_login r) approved
        else reviewStates)"

subsection \<open>The pair of a property line, in the words of the claim\<close>

text \<open>
  A line with an \<^verbatim>\<open>=\<close> and a non-empty text before the first one gives that text and the
  rest of the line; any other line gives nothing.
\<close>

definition claimed_pair :: "jstring \<Rightarrow> (jstring \<times> jstring) option" where
  "claimed_pair l =
     (if EQUALS \<in> set l \<and> takeWhile (\<lambda>c. c \<noteq> EQUALS) l \<noteq> []
      then Some (takeWhile (\<lambda>c. c \<noteq> EQUALS) l, tl (dropWhile (\<lambda>c. c \<noteq> EQUALS) l))
      else None)"

text \<open>The matches of the lines of a file, in the order of the lines (lines 63--65).\<close>

definition line_pairs :: "jstring \<Rightarrow> (jstring \<times> jstring) list" where
  "line_pairs data = map the (filter (\<lambda>i. i \<noteq> None) (map kv_exec (split_lines data)))"

subsection \<open>The clone URL of a repository, in the words of the specification\<close>

text \<open>Section 3: the pattern \<^verbatim>\<open>https://github.com/<user>/<repo>.git\<close>.\<close>

definition clone_url :: "jstring \<Rightarrow> jstring \<Rightarrow> jstring" where
  "clone_url user repo = js ''https://github.com/'' @ user @ js ''/'' @ repo @ js ''.git''"

subsection \<open>Notions for the theorems about the pull request handler\<close>

text \<open>The label set with \<open>L\<close> present exactly when \<open>c\<close> holds.\<close>

definition with_label :: "bool \<Rightarrow> jstring \<Rightarrow> jstring set \<Rightarrow> jstring set" where
  "with_label c L S = (if c then insert L S else S - {L})"

text \<open>The labels of the issue after line 56, from the labels \<open>S\<close> listed at line 25.\<close>

definition labels_after :: "pull_request_event \<Rightarrow> jstring set \<Rightarrow> jstring set" where
  "labels_after ev S =
     (case classify (pr_files ev) of (pluginFiles, dependencyFiles, otherFiles) \<Rightarrow>
        with_label (otherFiles \<noteq> []) PACKAGE_CHANGE
          (with_label (dependencyFiles \<noteq> []) DEPENDENCY_CHANGE
            (with_label (pluginFiles \<noteq> []) PLUGIN_CHANGE
              (S - {READY_TO_MERGE}))))"

text \<open>The number of comments whose body starts with the marker.\<close>

definition sticky_count :: "comment list \<Rightarrow> nat" where
  "sticky_count cs = length (filter (\<lambda>c. startsWith (comment_body c) marker) cs)"

section \<open>Auxiliary facts\<close>

lemma startsWith_iff: "startsWith s p \<longleftrightarrow> (\<exists>t. s = p @ t)"
  by (induction s p rule: startsWith.induct) auto


section \<open>The label reconciler\<close>

text \<open>
  Claim C8. For every label \<open>L\<close> and every issue whose current labels are the set the handler
  listed: \<open>setHasLabel true L\<close> on a set without \<open>L\<close> adds exactly \<open>L\<close>;
  \<open>setHasLabel false L\<close> on a set with \<open>L\<close> removes exactly \<open>L\<close>; in the two remaining cases
  nothing changes. No other label and no comment is touched, and no call fails.
\<close>

theorem setHasLabel_frame:
  "(L \<notin> issue_labels gh \<longrightarrow>
      setHasLabel (issue_labels gh) True L gh
        = Done (gh\<lparr>issue_labels := insert L (issue_labels gh)\<rparr>))
   \<and> (L \<in> issue_labels gh \<longrightarrow>
      setHasLabel (issue_labels gh) False L gh
        = Done (gh\<lparr>issue_labels := issue_labels gh - {L}\<rparr>))
   \<and> (L \<in> issue_labels gh \<longrightarrow> setHasLabel (issue_labels gh) True L gh = Done gh)
   \<and> (L \<notin> issue_labels gh \<longrightarrow> setHasLabel (issue_labels gh) False L gh = Done gh)"
  by (simp add: setHasLabel_def addLabels_def removeLabel_def)

theorem setHasLabel_frame_witness:
  "setHasLabel {js ''a''} True (js ''b'') \<lparr>issue_labels = {js ''a''}, issue_comments = []\<rparr>
     = Done \<lparr>issue_labels = {js ''b'', js ''a''}, issue_comments = []\<rparr>
   \<and> setHasLabel {js ''a''} False (js ''a'') \<lparr>issue_labels = {js ''a''}, issue_comments = []\<rparr>
     = Done \<lparr>issue_labels = {}, issue_comments = []\<rparr>
   \<and> setHasLabel {js ''a''} True (js ''a'') \<lparr>issue_labels = {js ''a''}, issue_comments = []\<rparr>
     = Done \<lparr>issue_labels = {js ''a''}, issue_comments = []\<rparr>
   \<and> setHasLabel {js ''a''} False (js ''b'') \<lparr>issue_labels = {js ''a''}, issue_comments = []\<rparr>
     = Done \<lparr>issue_labels = {js ''a''}, issue_comments = []\<rparr>"
  using setHasLabel_frame [of "js ''b''" "\<lparr>issue_labels = {js ''a''}, issue_comments = []\<rparr>"]
        setHasLabel_frame [of "js ''a''" "\<lparr>issue_labels = {js ''a''}, issue_comments = []\<rparr>"]
  by (simp add: js_def)

text \<open>
  Claim C7. The reconciler is idempotent. Applied to an issue whose labels are \<open>S\<close>, with
  \<open>S\<close> as the listed labels, \<open>setHasLabel c L\<close> completes, and applying it again to the
  result (with the labels listed afresh) changes nothing and fails nowhere. Applied twice
  against the same listing \<open>S\<close>, the labels after the second call are those after the first,
  and a repeated addition is no error.
\<close>

theorem setHasLabel_idempotent:
  assumes "issue_labels gh = S"
  shows "(\<exists>gh'. setHasLabel S c L gh = Done gh'
             \<and> setHasLabel (issue_labels gh') c L gh' = Done gh')
       \<and> issue_labels (state_of (and_then (setHasLabel S c L gh) (setHasLabel S c L)))
           = issue_labels (state_of (setHasLabel S c L gh))
       \<and> (c \<longrightarrow> (\<exists>gh2. and_then (setHasLabel S c L gh) (setHasLabel S c L) = Done gh2))"
  using assms
  by (auto simp: setHasLabel_def addLabels_def removeLabel_def and_then_def)

theorem setHasLabel_idempotent_witness:
  "issue_labels \<lparr>issue_labels = {js ''a''}, issue_comments = []\<rparr> = {js ''a''}
   \<and> (\<exists>gh'. setHasLabel {js ''a''} True (js ''b'') \<lparr>issue_labels = {js ''a''}, issue_comments = []\<rparr>
               = Done gh'
             \<and> setHasLabel (issue_labels gh') True (js ''b'') gh' = Done gh')
   \<and> issue_labels (state_of (and_then
         (setHasLabel {js ''a''} True (js ''b'') \<lparr>issue_labels = {js ''a''}, issue_comments = []\<rparr>)
         (setHasLabel {js ''a''} True (js ''b''))))
       = issue_labels (state_of
           (setHasLabel {js ''a''} True (js ''b'') \<lparr>issue_labels = {js ''a''}, issue_comments = []\<rparr>))
   \<and> (\<exists>gh2. and_then
         (setHasLabel {js ''a''} True (js ''b'') \<lparr>issue_labels = {js ''a''}, issue_comments = []\<rparr>)
         (setHasLabel {js ''a''} True (js ''b'')) = Done gh2)"
  using setHasLabel_idempotent
          [of "\<lparr>issue_labels = {js ''a''}, issue_comments = []\<rparr>" "{js ''a''}" True "js ''b''"]
  by simp

section \<open>The review consensus\<close>

lemma reviewStates_of_fold:
  "reviewStates_of rs members = foldl review_step [] (filter (\<lambda>r. user_login r \<in> members) rs)"
  unfolding reviewStates_of_def review_step_def ..

lemma review_step_get:
  "k \<noteq> js ''__proto__'' \<Longrightarrow>
   js_get (review_step acc r) k =
     (if user_login r = k \<and> decision r \<noteq> None then decision r else js_get acc k)"
  by (auto simp: review_step_def decision_def js_set_def js_get_def update_conv' Let_def)

lemma foldl_review_step_get:
  "k \<noteq> js ''__proto__'' \<Longrightarrow>
   js_get (foldl review_step acc rs) k =
     (if filter (\<lambda>r. user_login r = k \<and> decision r \<noteq> None) rs = [] then js_get acc k
      else decision (last (filter (\<lambda>r. user_login r = k \<and> decision r \<noteq> None) rs)))"
proof (induction rs rule: rev_induct)
  case Nil
  then show ?case by simp
next
  case (snoc r rs)
  then show ?case
    by (auto simp: review_step_get)
qed

lemma filter_conj_members:
  "filter (\<lambda>r. user_login r = k \<and> decision r \<noteq> None) (filter (\<lambda>r. user_login r \<in> members) rs)
   = filter (\<lambda>r. user_login r \<in> members \<and> user_login r = k \<and> decision r \<noteq> None) rs"
  by (simp add: conj_commute conj_left_commute)

lemma foldl_review_step_nondecisive:
  "\<forall>r\<in>set rs. decision r = None \<Longrightarrow> foldl review_step acc rs = acc"
  by (induction rs arbitrary: acc) (auto simp: review_step_def decision_def split: if_splits)

lemma unapproved_nonempty:
  "js_get obj k = Some False \<Longrightarrow>
   filter (\<lambda>k. js_get obj k \<noteq> Some True) (js_keys obj) \<noteq> []"
proof -
  assume a: "js_get obj k = Some False"
  then have "k \<in> set (js_keys obj)"
    by (auto simp: js_get_def js_keys_def dest: map_of_SomeD intro: rev_image_eqI)
  with a have "\<exists>x\<in>set (js_keys obj). js_get obj x \<noteq> Some True"
    by (intro bexI [of _ k]) simp_all
  then show ?thesis
    by (simp add: filter_empty_conv)
qed

text \<open>
  Claim C3. The decision map is a left-to-right fold over the reviews of the team members:
  the entry of a login is the decision of its last decisive review, where state
  \<^verbatim>\<open>APPROVED\<close> or body \<^verbatim>\<open>lgtm\<close> is an approval and any other state but
  \<^verbatim>\<open>COMMENTED\<close> a rejection, and the login has no entry when it has no decisive review.
  A \<^verbatim>\<open>COMMENTED\<close> review whose body is not \<^verbatim>\<open>lgtm\<close> can be dropped from the list
  without changing the map. A team login with \<^verbatim>\<open>CHANGES_REQUESTED\<close> and then
  \<^verbatim>\<open>APPROVED\<close> ends approved. (Logins are GitHub user names, which have no underscore,
  so the login is never \<^verbatim>\<open>__proto__\<close>.)
\<close>

theorem reviewStates_last_decisive:
  "(k \<noteq> js ''__proto__'' \<longrightarrow>
      js_get (reviewStates_of rs members) k = last_decision rs members k)
   \<and> (state r = js ''COMMENTED'' \<and> body r \<noteq> js ''lgtm'' \<longrightarrow>
        reviewStates_of (rs @ [r] @ rs') members = reviewStates_of (rs @ rs') members)
   \<and> (k \<in> members \<and> k \<noteq> js ''__proto__'' \<longrightarrow>
        js_get (reviewStates_of
          [\<lparr>user_login = k, state = js ''CHANGES_REQUESTED'', body = b1\<rparr>,
           \<lparr>user_login = k, state = js ''APPROVED'', body = b2\<rparr>] members) k = Some True)"
proof (intro conjI impI)
  assume k: "k \<noteq> js ''__proto__''"
  show "js_get (reviewStates_of rs members) k = last_decision rs members k"
    unfolding reviewStates_of_fold foldl_review_step_get [OF k] filter_conj_members
    by (simp add: last_decision_def js_get_def Let_def)
next
  assume "state r = js ''COMMENTED'' \<and> body r \<noteq> js ''lgtm''"
  then have "review_step acc r = acc" for acc
    by (simp add: js_def review_step_def)
  then show "reviewStates_of (rs @ [r] @ rs') members = reviewStates_of (rs @ rs') members"
    by (simp add: reviewStates_of_fold)
next
  assume k: "k \<in> members \<and> k \<noteq> js ''__proto__''"
  then show "js_get (reviewStates_of
          [\<lparr>user_login = k, state = js ''CHANGES_REQUESTED'', body = b1\<rparr>,
           \<lparr>user_login = k, state = js ''APPROVED'', body = b2\<rparr>] members) k = Some True"
    by (simp add: reviewStates_of_fold review_step_def js_set_def js_get_def)
qed

theorem reviewStates_last_decisive_witness:
  "js_get (reviewStates_of
      [\<lparr>user_login = js ''alice'', state = js ''CHANGES_REQUESTED'', body = js ''no''\<rparr>,
       \<lparr>user_login = js ''bob'', state = js ''DISMISSED'', body = []\<rparr>,
       \<lparr>user_login = js ''alice'', state = js ''COMMENTED'', body = js ''lgtm''\<rparr>,
       \<lparr>user_login = js ''alice'', state = js ''COMMENTED'', body = js ''hm''\<rparr>] {js ''alice'', js ''bob''}) (js ''alice'')
     = Some True
   \<and> last_decision
      [\<lparr>user_login = js ''alice'', state = js ''CHANGES_REQUESTED'', body = js ''no''\<rparr>,
       \<lparr>user_login = js ''bob'', state = js ''DISMISSED'', body = []\<rparr>,
       \<lparr>user_login = js ''alice'', state = js ''COMMENTED'', body = js ''lgtm''\<rparr>,
       \<lparr>user_login = js ''alice'', state = js ''COMMENTED'', body = js ''hm''\<rparr>] {js ''alice'', js ''bob''} (js ''alice'')
     = Some True
   \<and> reviewStates_of
        ([\<lparr>user_login = js ''alice'', state = js ''APPROVED'', body = []\<rparr>]
          @ [\<lparr>user_login = js ''alice'', state = js ''COMMENTED'', body = js ''hm''\<rparr>] @ []) {js ''alice''}
      = reviewStates_of ([\<lparr>user_login = js ''alice'', state = js ''APPROVED'', body = []\<rparr>] @ []) {js ''alice''}
   \<and> js_get (reviewStates_of
        [\<lparr>user_login = js ''alice'', state = js ''CHANGES_REQUESTED'', body = []\<rparr>,
         \<lparr>user_login = js ''alice'', state = js ''APPROVED'', body = []\<rparr>] {js ''alice''}) (js ''alice'')
      = Some True"
  using reviewStates_last_decisive
    [of "js ''alice''"
        "[\<lparr>user_login = js ''alice'', state = js ''CHANGES_REQUESTED'', body = js ''no''\<rparr>,
          \<lparr>user_login = js ''bob'', state = js ''DISMISSED'', body = []\<rparr>,
          \<lparr>user_login = js ''alice'', state = js ''COMMENTED'', body = js ''lgtm''\<rparr>,
          \<lparr>user_login = js ''alice'', state = js ''COMMENTED'', body = js ''hm''\<rparr>]"
        "{js ''alice'', js ''bob''}"]
    reviewStates_last_decisive
    [of "js ''alice''" "[\<lparr>user_login = js ''alice'', state = js ''APPROVED'', body = []\<rparr>]" "{js ''alice''}"
        "\<lparr>user_login = js ''alice'', state = js ''COMMENTED'', body = js ''hm''\<rparr>" "[]" "[]" "[]"]
  by (simp add: js_def last_decision_def decision_def del: not_None_eq)

text \<open>
  Claim C4. Whenever the decision map comes out empty the review handler completes with the
  issue exactly as it was: no label is added or removed. The map is empty in particular when
  every review of a team member is not decisive, which covers an empty review list and a list
  of reviews by non-members only.
\<close>

theorem empty_decisions_leave_labels:
  "(reviewStates_of (reviews ev) (set (memberList ev)) = [] \<longrightarrow>
      pull_request_review_submitted ev gh = Done gh)
   \<and> ((\<forall>r\<in>set (reviews ev). user_login r \<in> set (memberList ev) \<longrightarrow> decision r = None) \<longrightarrow>
        reviewStates_of (reviews ev) (set (memberList ev)) = [])"
proof (intro conjI impI)
  assume "reviewStates_of (reviews ev) (set (memberList ev)) = []"
  then show "pull_request_review_submitted ev gh = Done gh"
    by (simp add: pull_request_review_submitted_def js_keys_def Let_def)
next
  assume "\<forall>r\<in>set (reviews ev). user_login r \<in> set (memberList ev) \<longrightarrow> decision r = None"
  then show "reviewStates_of (reviews ev) (set (memberList ev)) = []"
    by (simp add: reviewStates_of_fold foldl_review_step_nondecisive)
qed

theorem empty_decisions_leave_labels_witness:
  "reviewStates_of [\<lparr>user_login = js ''carol'', state = js ''APPROVED'', body = []\<rparr>]
       (set [js ''alice'', js ''bob'']) = []
   \<and> pull_request_review_submitted
        \<lparr>reviews = [\<lparr>user_login = js ''carol'', state = js ''APPROVED'', body = []\<rparr>],
         memberList = [js ''alice'', js ''bob'']\<rparr>
        \<lparr>issue_labels = {js ''plugin change''}, issue_comments = []\<rparr>
      = Done \<lparr>issue_labels = {js ''plugin change''}, issue_comments = []\<rparr>"
  using empty_decisions_leave_labels
    [of "\<lparr>reviews = [\<lparr>user_login = js ''carol'', state = js ''APPROVED'', body = []\<rparr>],
         memberList = [js ''alice'', js ''bob'']\<rparr>"
        "\<lparr>issue_labels = {js ''plugin change''}, issue_comments = []\<rparr>"]
  by (simp add: js_def)

text \<open>
  Claim C2, as stated, fails: a team member's rejection followed by the same member's approval
  is overwritten in the decision map, and the handler then adds \<^verbatim>\<open>ready to merge\<close>.
\<close>

theorem approvals_after_rejection_counterexample:
  "user_login \<lparr>user_login = js ''alice'', state = js ''CHANGES_REQUESTED'', body = []\<rparr> \<in> set [js ''alice'']
   \<and> decision \<lparr>user_login = js ''alice'', state = js ''CHANGES_REQUESTED'', body = []\<rparr> = Some False
   \<and> pull_request_review_submitted
        \<lparr>reviews = [\<lparr>user_login = js ''alice'', state = js ''CHANGES_REQUESTED'', body = []\<rparr>,
                    \<lparr>user_login = js ''alice'', state = js ''APPROVED'', body = []\<rparr>],
         memberList = [js ''alice'']\<rparr>
        \<lparr>issue_labels = {js ''plugin change''}, issue_comments = []\<rparr>
      = Done \<lparr>issue_labels = {js ''ready to merge'', js ''plugin change''}, issue_comments = []\<rparr>"
  by (simp add: decision_def pull_request_review_submitted_def reviewStates_of_def
      js_set_def js_get_def js_keys_def addLabels_def PLUGIN_CHANGE_def READY_TO_MERGE_def js_def)

text \<open>
  Claim C2, amended. When the last decisive review of some team member is a rejection, the
  review handler never adds \<^verbatim>\<open>ready to merge\<close>: on an issue that carries
  \<^verbatim>\<open>plugin change\<close> it completes with \<^verbatim>\<open>ready to merge\<close> removed and every other label
  as before, whatever approvals the list holds; on an issue without \<^verbatim>\<open>plugin change\<close> it
  does not run and the issue stays as it was.
\<close>

theorem rejection_blocks_ready_to_merge:
  assumes "k \<noteq> js ''__proto__''"
    and "last_decision (reviews ev) (set (memberList ev)) k = Some False"
  shows "(PLUGIN_CHANGE \<in> issue_labels gh \<longrightarrow>
            pull_request_review_submitted ev gh
              = Done (gh\<lparr>issue_labels := issue_labels gh - {READY_TO_MERGE}\<rparr>))
       \<and> (PLUGIN_CHANGE \<notin> issue_labels gh \<longrightarrow> pull_request_review_submitted ev gh = Done gh)"
proof -
  have get: "js_get (reviewStates_of (reviews ev) (set (memberList ev))) k = Some False"
    using assms
    unfolding reviewStates_of_fold foldl_review_step_get [OF assms(1)] filter_conj_members
    by (simp add: last_decision_def js_get_def Let_def split: if_splits)
  have un: "filter (\<lambda>k. js_get (reviewStates_of (reviews ev) (set (memberList ev))) k \<noteq> Some True)
              (js_keys (reviewStates_of (reviews ev) (set (memberList ev)))) \<noteq> []"
    by (rule unapproved_nonempty [OF get])
  have ne: "reviews ev \<noteq> []"
    using assms(2) by (auto simp: last_decision_def)
  show ?thesis
    using un ne
    by (auto simp: pull_request_review_submitted_def Let_def removeLabel_def)
qed

theorem rejection_blocks_ready_to_merge_witness:
  "js ''bob'' \<noteq> js ''__proto__''
   \<and> last_decision
        [\<lparr>user_login = js ''alice'', state = js ''APPROVED'', body = []\<rparr>,
         \<lparr>user_login = js ''bob'', state = js ''CHANGES_REQUESTED'', body = []\<rparr>]
        (set [js ''alice'', js ''bob'']) (js ''bob'') = Some False
   \<and> pull_request_review_submitted
        \<lparr>reviews = [\<lparr>user_login = js ''alice'', state = js ''APPROVED'', body = []\<rparr>,
                    \<lparr>user_login = js ''bob'', state = js ''CHANGES_REQUESTED'', body = []\<rparr>],
         memberList = [js ''alice'', js ''bob'']\<rparr>
        \<lparr>issue_labels = {js ''plugin change'', js ''ready to merge''}, issue_comments = []\<rparr>
      = Done \<lparr>issue_labels = {js ''plugin change''}, issue_comments = []\<rparr>
   \<and> pull_request_review_submitted
        \<lparr>reviews = [\<lparr>user_login = js ''alice'', state = js ''APPROVED'', body = []\<rparr>,
                    \<lparr>user_login = js ''bob'', state = js ''CHANGES_REQUESTED'', body = []\<rparr>],
         memberList = [js ''alice'', js ''bob'']\<rparr>
        \<lparr>issue_labels = {js ''ready to merge''}, issue_comments = []\<rparr>
      = Done \<lparr>issue_labels = {js ''ready to merge''}, issue_comments = []\<rparr>"
proof -
  have k: "js ''bob'' \<noteq> js ''__proto__''"
    by (simp add: js_def)
  have d: "last_decision
        (reviews \<lparr>reviews = [\<lparr>user_login = js ''alice'', state = js ''APPROVED'', body = []\<rparr>,
                    \<lparr>user_login = js ''bob'', state = js ''CHANGES_REQUESTED'', body = []\<rparr>],
         memberList = [js ''alice'', js ''bob'']\<rparr>)
        (set (memberList \<lparr>reviews = [\<lparr>user_login = js ''alice'', state = js ''APPROVED'', body = []\<rparr>,
                    \<lparr>user_login = js ''bob'', state = js ''CHANGES_REQUESTED'', body = []\<rparr>],
         memberList = [js ''alice'', js ''bob'']\<rparr>)) (js ''bob'') = Some False"
    by (simp add: js_def last_decision_def decision_def del: not_None_eq)
  show ?thesis
    using d rejection_blocks_ready_to_merge [OF k d,
        of "\<lparr>issue_labels = {js ''plugin change'', js ''ready to merge''}, issue_comments = []\<rparr>"]
      rejection_blocks_ready_to_merge [OF k d,
        of "\<lparr>issue_labels = {js ''ready to merge''}, issue_comments = []\<rparr>"]
    by (simp add: js_def PLUGIN_CHANGE_def READY_TO_MERGE_def insert_Diff_if)
qed

section \<open>The property-file parser\<close>

lemma dropWhile_no_eq:
  "EQUALS \<notin> set s \<Longrightarrow> dropWhile (\<lambda>c. c \<noteq> EQUALS) s = []"
  by auto

lemma kv_match_here_no_eq: "EQUALS \<notin> set s \<Longrightarrow> kv_match_here s = None"
  by (simp add: kv_match_here_def Let_def dropWhile_no_eq del: dropWhile_eq_Nil_conv)

lemma kv_exec_no_eq: "EQUALS \<notin> set s \<Longrightarrow> kv_exec s = None"
proof (induction s)
  case Nil
  then show ?case by simp
next
  case (Cons c s)
  from Cons.prems have "kv_match_here (c # s) = None"
    by (rule kv_match_here_no_eq)
  moreover from Cons have "kv_exec s = None"
    by simp
  ultimately show ?case by simp
qed

lemma kv_exec_char:
  "kv_exec l =
     (let l' = dropWhile (\<lambda>c. c = EQUALS) l in
      if EQUALS \<in> set l'
      then Some (takeWhile (\<lambda>c. c \<noteq> EQUALS) l',
                 takeWhile (\<lambda>c. \<not> line_terminator c) (tl (dropWhile (\<lambda>c. c \<noteq> EQUALS) l')))
      else None)"
proof (induction l)
  case Nil
  then show ?case by simp
next
  case (Cons c s)
  show ?case
  proof (cases "c = EQUALS")
    case True
    then show ?thesis
      using Cons by (simp add: kv_match_here_def)
  next
    case False
    show ?thesis
    proof (cases "EQUALS \<in> set s")
      case True
      then have "dropWhile (\<lambda>c. c \<noteq> EQUALS) s \<noteq> []"
        by auto
      then show ?thesis
        using False True by (auto simp: kv_match_here_def Let_def split: list.splits)
    next
      case no: False
      then have "dropWhile (\<lambda>c. c \<noteq> EQUALS) s = []"
        by (rule dropWhile_no_eq)
      then show ?thesis
        using False no kv_match_here_no_eq [of "c # s"] by (simp add: kv_exec_no_eq)
    qed
  qed
qed

lemma foldl_js_set_get:
  "js_get (foldl (\<lambda>acc p. js_set acc (fst p) (snd p)) acc ps) k =
     (if k = js ''__proto__'' \<or> filter (\<lambda>p. fst p = k) ps = [] then js_get acc k
      else Some (snd (last (filter (\<lambda>p. fst p = k) ps))))"
proof (induction ps rule: rev_induct)
  case Nil
  then show ?case by simp
next
  case (snoc p ps)
  then show ?case
    by (auto simp: js_set_def js_get_def update_conv')
qed

lemma readKV_line_pairs:
  "readKV data = foldl (\<lambda>acc p. js_set acc (fst p) (snd p)) [] (line_pairs data)"
  by (simp add: readKV_def line_pairs_def foldl_map)


lemma split_lines_nonempty: "split_lines s \<noteq> []"
  by (induction s) (auto split: list.splits)

lemma split_lines_no_newline: "l \<in> set (split_lines s) \<Longrightarrow> LF \<notin> set l"
proof (induction s arbitrary: l)
  case Nil
  then show ?case by simp
next
  case (Cons c s)
  then show ?case
    using split_lines_nonempty [of s]
    by (cases "split_lines s") (auto split: if_splits)
qed

lemma join_Cons_Cons: "join sep ((c # l) # ls) = c # join sep (l # ls)"
  by (cases ls) simp_all

lemma join_split_lines: "join [LF] (split_lines s) = s"
proof (induction s)
  case Nil
  then show ?case by simp
next
  case (Cons c s)
  obtain l ls where ls: "split_lines s = l # ls"
    using split_lines_nonempty [of s] by (cases "split_lines s") auto
  show ?case
  proof (cases "c = LF")
    case True
    with Cons ls show ?thesis by simp
  next
    case False
    with Cons ls show ?thesis by (simp add: join_Cons_Cons)
  qed
qed

lemma kv_exec_claimed:
  assumes "\<not> startsWith l [EQUALS]" and "\<forall>c\<in>set l. \<not> line_terminator c"
  shows "kv_exec l = claimed_pair l"
proof (cases l)
  case Nil
  then show ?thesis by (simp add: claimed_pair_def)
next
  case (Cons c s)
  with assms(1) have c: "c \<noteq> EQUALS"
    by simp
  have "set (tl (dropWhile (\<lambda>c. c \<noteq> EQUALS) l)) \<subseteq> set l"
  proof -
    have "set (tl ys) \<subseteq> set ys" for ys :: jstring
      by (cases ys) auto
    moreover have "set (dropWhile (\<lambda>c. c \<noteq> EQUALS) l) \<subseteq> set l"
      by (auto dest: set_dropWhileD)
    ultimately show ?thesis
      by blast
  qed
  with assms(2) have "\<forall>c\<in>set (tl (dropWhile (\<lambda>c. c \<noteq> EQUALS) l)). \<not> line_terminator c"
    by blast
  then have "takeWhile (\<lambda>c. \<not> line_terminator c) (tl (dropWhile (\<lambda>c. c \<noteq> EQUALS) l))
               = tl (dropWhile (\<lambda>c. c \<noteq> EQUALS) l)"
    by (simp add: takeWhile_eq_all_conv)
  moreover have "dropWhile (\<lambda>c. c = EQUALS) l = l"
    using c Cons by simp
  ultimately have "kv_exec l =
      (if EQUALS \<in> set l
       then Some (takeWhile (\<lambda>c. c \<noteq> EQUALS) l, tl (dropWhile (\<lambda>c. c \<noteq> EQUALS) l))
       else None)"
    by (simp only: kv_exec_char [of l] Let_def)
  moreover have "takeWhile (\<lambda>c. c \<noteq> EQUALS) l \<noteq> []"
    using c Cons by simp
  ultimately show ?thesis
    by (simp add: claimed_pair_def)
qed

text \<open>
  Claim C10, amended. The lines of a file are its pieces between line feeds. On a line the
  expression first skips the \<^verbatim>\<open>=\<close> characters the line starts with; if an \<^verbatim>\<open>=\<close>
  follows later, the key is the text up to it and the value the rest up to the first line
  terminator (a carriage return, U+2028 or U+2029; the value may contain \<^verbatim>\<open>=\<close>);
  otherwise the line gives nothing. For a line of the file that does not start with
  \<^verbatim>\<open>=\<close> and holds none of these three line terminators this is the pair of the claim.
  In the record the value of the last line with a key wins, and the key \<^verbatim>\<open>__proto__\<close> is
  never stored.
\<close>

theorem readKV_last_line_wins:
  "(join [LF] (split_lines data) = data \<and> (\<forall>l\<in>set (split_lines data). LF \<notin> set l))
   \<and> kv_exec l =
     (let l' = dropWhile (\<lambda>c. c = EQUALS) l in
      if EQUALS \<in> set l'
      then Some (takeWhile (\<lambda>c. c \<noteq> EQUALS) l',
                 takeWhile (\<lambda>c. \<not> line_terminator c) (tl (dropWhile (\<lambda>c. c \<noteq> EQUALS) l')))
      else None)
   \<and> (l \<in> set (split_lines data) \<and> \<not> startsWith l [EQUALS]
        \<and> CR \<notin> set l \<and> LS \<notin> set l \<and> PS \<notin> set l \<longrightarrow>
        kv_exec l = claimed_pair l)
   \<and> js_get (readKV data) k =
       (if k = js ''__proto__'' \<or> filter (\<lambda>p. fst p = k) (line_pairs data) = [] then None
        else Some (snd (last (filter (\<lambda>p. fst p = k) (line_pairs data)))))"
proof (intro conjI impI)
  show "join [LF] (split_lines data) = data"
    by (rule join_split_lines)
next
  show "\<forall>l\<in>set (split_lines data). LF \<notin> set l"
    using split_lines_no_newline by blast
next
  show "kv_exec l =
     (let l' = dropWhile (\<lambda>c. c = EQUALS) l in
      if EQUALS \<in> set l'
      then Some (takeWhile (\<lambda>c. c \<noteq> EQUALS) l',
                 takeWhile (\<lambda>c. \<not> line_terminator c) (tl (dropWhile (\<lambda>c. c \<noteq> EQUALS) l')))
      else None)"
    by (rule kv_exec_char)
next
  assume a: "l \<in> set (split_lines data) \<and> \<not> startsWith l [EQUALS]
        \<and> CR \<notin> set l \<and> LS \<notin> set l \<and> PS \<notin> set l"
  then have "LF \<notin> set l"
    by (intro split_lines_no_newline [of l data]) simp
  with a have "\<forall>c\<in>set l. \<not> line_terminator c"
    by (auto simp: line_terminator_def)
  with a show "kv_exec l = claimed_pair l"
    by (intro kv_exec_claimed) simp_all
next
  show "js_get (readKV data) k =
       (if k = js ''__proto__'' \<or> filter (\<lambda>p. fst p = k) (line_pairs data) = [] then None
        else Some (snd (last (filter (\<lambda>p. fst p = k) (line_pairs data)))))"
    unfolding readKV_line_pairs foldl_js_set_get
    by (simp add: js_get_def)
qed

text \<open>
  Claim C10, as stated, fails: a line that starts with \<^verbatim>\<open>=\<close> has an empty text before
  its first \<^verbatim>\<open>=\<close> and still gives a pair; the value stops at a line terminator inside
  the line (here U+2028); and a line with the key \<^verbatim>\<open>__proto__\<close> gives no entry.
\<close>

theorem readKV_leading_equals_counterexample:
  "readKV (js ''=a=b'') = [(js ''a'', js ''b'')]
   \<and> claimed_pair (js ''=a=b'') = None
   \<and> readKV (js ''a=b'' @ [LS] @ js ''c'') = [(js ''a'', js ''b'')]
   \<and> claimed_pair (js ''a=b'' @ [LS] @ js ''c'') = Some (js ''a'', js ''b'' @ [LS] @ js ''c'')
   \<and> readKV (js ''__proto__=x'') = []
   \<and> claimed_pair (js ''__proto__=x'') = Some (js ''__proto__'', js ''x'')"
  by (simp add: js_def readKV_def kv_match_here_def claimed_pair_def js_set_def line_terminator_def)

theorem readKV_last_line_wins_witness:
  "join [LF] (split_lines (js ''a=b\<newline>c=d=e\<newline>\<newline>a=z\<newline>none''))
     = js ''a=b\<newline>c=d=e\<newline>\<newline>a=z\<newline>none''
   \<and> kv_exec (js ''==c=d=e'') = Some (js ''c'', js ''d=e'')
   \<and> kv_exec (js ''k=v'' @ [CR]) = Some (js ''k'', js ''v'')
   \<and> kv_exec (js ''c=d=e'') = claimed_pair (js ''c=d=e'')
   \<and> js_get (readKV (js ''a=b\<newline>c=d=e\<newline>\<newline>a=z\<newline>none'')) (js ''a'') = Some (js ''z'')"
proof -
  have l: "js ''c=d=e'' \<in> set (split_lines (js ''a=b\<newline>c=d=e\<newline>\<newline>a=z\<newline>none''))"
    by (simp add: js_def)
  have p: "line_pairs (js ''a=b\<newline>c=d=e\<newline>\<newline>a=z\<newline>none'')
             = [(js ''a'', js ''b''), (js ''c'', js ''d=e''), (js ''a'', js ''z'')]"
    by (simp add: js_def line_pairs_def kv_match_here_def line_terminator_def)
  have e: "\<not> startsWith (js ''c=d=e'') [EQUALS]" "CR \<notin> set (js ''c=d=e'')"
    "LS \<notin> set (js ''c=d=e'')" "PS \<notin> set (js ''c=d=e'')"
    by (simp_all add: js_def)
  have a: "kv_exec (js ''==c=d=e'') = Some (js ''c'', js ''d=e'')"
    using readKV_last_line_wins [of "[]" "js ''==c=d=e''" "[]"]
    by (simp add: js_def line_terminator_def)
  have b: "kv_exec (js ''k=v'' @ [CR]) = Some (js ''k'', js ''v'')"
    using readKV_last_line_wins [of "[]" "js ''k=v'' @ [CR]" "[]"]
    by (simp add: js_def line_terminator_def)
  have c: "js_get (readKV (js ''a=b\<newline>c=d=e\<newline>\<newline>a=z\<newline>none'')) (js ''a'') = Some (js ''z'')"
    using readKV_last_line_wins
      [of "js ''a=b\<newline>c=d=e\<newline>\<newline>a=z\<newline>none''" "[]" "js ''a''"]
    unfolding p by (simp add: js_def)
  show ?thesis
    using l e a b c
      readKV_last_line_wins [of "js ''a=b\<newline>c=d=e\<newline>\<newline>a=z\<newline>none''" "js ''c=d=e''" "[]"]
    by blast
qed

section \<open>The repository reference\<close>

lemma strip_prefix_append: "strip_prefix p (p @ t) = Some t"
  by (simp add: strip_prefix_def startsWith_iff)

lemma strip_prefix_Some: "strip_prefix p s = Some t \<Longrightarrow> s = p @ t"
  by (auto simp: strip_prefix_def startsWith_iff split: if_splits)

lemma dot_git_iff: "dot_git s \<longleftrightarrow> (\<exists>c post. s = c # js ''git'' @ post \<and> \<not> line_terminator c)"
  by (cases s) (auto simp: dot_git_def startsWith_iff)

lemma repo_match_Some:
  "repo_match n s = Some r \<Longrightarrow> \<exists>k. 0 < k \<and> k \<le> n \<and> r = take k s \<and> dot_git (drop k s)"
proof (induction n)
  case 0
  then show ?case by simp
next
  case (Suc n)
  show ?case
  proof (cases "dot_git (drop (Suc n) s)")
    case True
    with Suc.prems show ?thesis
      by (intro exI [of _ "Suc n"]) auto
  next
    case False
    with Suc obtain k where "0 < k" "k \<le> n" "r = take k s" "dot_git (drop k s)"
      by auto
    then show ?thesis
      by (intro exI [of _ k]) auto
  qed
qed

lemma url_match_here_shape:
  assumes "url_match_here s = Some (user, repo)"
  shows "\<exists>c post. s = js ''https://github.com/'' @ user @ js ''/'' @ repo @ c # js ''git'' @ post
           \<and> user \<noteq> [] \<and> SLASH \<notin> set user \<and> repo \<noteq> [] \<and> DOT \<notin> set repo
           \<and> \<not> line_terminator c"
proof -
  from assms obtain s1 where s1: "strip_prefix (js ''https://github.com/'') s = Some s1"
    by (auto simp: url_match_here_def split: option.splits)
  define rest where "rest = dropWhile (\<lambda>c. c \<noteq> SLASH) s1"
  from assms s1 have user: "user = takeWhile (\<lambda>c. c \<noteq> SLASH) s1" and ne: "user \<noteq> []"
    by (auto simp: url_match_here_def Let_def split: option.splits list.splits if_splits)
  from assms s1 obtain sl s2 where rest: "rest = sl # s2"
    and rm: "repo_match (length (takeWhile (\<lambda>c. c \<noteq> DOT) s2)) s2 = Some repo"
    by (auto simp: url_match_here_def Let_def rest_def split: option.splits list.splits if_splits)
  have "\<not> (hd rest \<noteq> SLASH)"
    unfolding rest_def by (rule hd_dropWhile) (use rest in \<open>simp add: rest_def\<close>)
  with rest have sl: "sl = SLASH"
    by simp
  have s1_eq: "s1 = user @ SLASH # s2"
    using rest sl unfolding user rest_def
    by (metis takeWhile_dropWhile_id)
  from repo_match_Some [OF rm] obtain k where k: "0 < k"
    "k \<le> length (takeWhile (\<lambda>c. c \<noteq> DOT) s2)" "repo = take k s2" "dot_git (drop k s2)"
    by blast
  from k(4) obtain c post where cp: "drop k s2 = c # js ''git'' @ post" "\<not> line_terminator c"
    by (auto simp: dot_git_iff)
  have s2_eq: "s2 = repo @ c # js ''git'' @ post"
    using append_take_drop_id [of k s2] k(3) cp(1) by simp
  have "length (takeWhile (\<lambda>c. c \<noteq> DOT) s2) \<le> length s2"
    by (rule length_takeWhile_le)
  with k have rne: "repo \<noteq> []"
    by auto
  have "repo = take k (takeWhile (\<lambda>c. c \<noteq> DOT) s2)"
    using k(2,3) takeWhile_dropWhile_id [of "\<lambda>c. c \<noteq> DOT" s2]
    by (metis append_eq_conv_conj take_append take_all_iff append_Nil2 diff_is_0_eq take_0)
  then have "set repo \<subseteq> set (takeWhile (\<lambda>c. c \<noteq> DOT) s2)"
    by (metis set_take_subset)
  then have nodot: "DOT \<notin> set repo"
    by (auto dest: set_takeWhileD)
  have noslash: "SLASH \<notin> set user"
    unfolding user by (auto dest: set_takeWhileD)
  from strip_prefix_Some [OF s1] s1_eq s2_eq
  have "s = js ''https://github.com/'' @ user @ js ''/'' @ repo @ c # js ''git'' @ post"
    by (simp add: js_def)
  with ne noslash rne nodot cp(2) show ?thesis
    by blast
qed

lemma url_exec_Some:
  "url_exec s = Some m \<Longrightarrow> \<exists>pre rest. s = pre @ rest \<and> url_match_here rest = Some m"
proof (induction s)
  case Nil
  then show ?case by simp
next
  case (Cons c s)
  show ?case
  proof (cases "url_match_here (c # s)")
    case None
    with Cons obtain pre rest where "s = pre @ rest" "url_match_here rest = Some m"
      by auto
    then show ?thesis
      by (intro exI [of _ "c # pre"] exI [of _ rest]) simp
  next
    case (Some m')
    with Cons.prems show ?thesis
      by (intro exI [of _ "[]"] exI [of _ "c # s"]) simp
  qed
qed

lemma url_match_here_clone_url:
  assumes "user \<noteq> []" "SLASH \<notin> set user" "repo \<noteq> []" "DOT \<notin> set repo"
  shows "url_match_here (clone_url user repo) = Some (user, repo)"
proof -
  let ?s1 = "user @ SLASH # repo @ js ''.git''"
  have sp: "strip_prefix (js ''https://github.com/'') (clone_url user repo) = Some ?s1"
    unfolding clone_url_def using strip_prefix_append [of "js ''https://github.com/''" ?s1] by (simp add: js_def)
  have tw: "takeWhile (\<lambda>c. c \<noteq> SLASH) ?s1 = user"
    using assms(2) by (subst takeWhile_tail) (auto simp: takeWhile_eq_all_conv)
  have dw: "dropWhile (\<lambda>c. c \<noteq> SLASH) ?s1 = SLASH # repo @ js ''.git''"
    using assms(2) by (subst dropWhile_append3) auto
  have tw2: "takeWhile (\<lambda>c. c \<noteq> DOT) (repo @ js ''.git'') = repo"
    using assms(4) takeWhile_tail [of "\<lambda>c. c \<noteq> DOT" "DOT" repo "js ''git''"]
    by (auto simp: js_def takeWhile_eq_all_conv)
  obtain n where n: "length repo = Suc n"
    using assms(3) by (cases repo) auto
  have "dot_git (drop (length repo) (repo @ js ''.git''))"
    by (simp add: js_def dot_git_def line_terminator_def)
  then have "repo_match (Suc n) (repo @ js ''.git'') = Some (take (Suc n) (repo @ js ''.git''))"
    by (simp add: n)
  then have rm: "repo_match (length repo) (repo @ js ''.git'') = Some repo"
    by (simp add: n)
  show ?thesis
    unfolding url_match_here_def sp
    using assms(1) by (simp add: tw dw tw2 rm del: takeWhile_append dropWhile_append)
qed


lemma url_exec_here: "url_match_here s = Some m \<Longrightarrow> url_exec s = Some m"
  by (cases s) (auto simp: js_def url_match_here_def strip_prefix_def)

text \<open>
  Claim C5 holds of clone URLs whose repository name has no dot, and the code breaks it on the
  others. For every clone URL \<^verbatim>\<open>https://github.com/<user>/<repo>.git\<close> with a non-empty user
  without \<^verbatim>\<open>/\<close> and a non-empty repo without a dot, \<open>extractURL\<close> returns the pair of the
  URL. For a repo with a dot it never does: the group \<^verbatim>\<open>([^.]+)\<close> stops at the first dot and
  the dot before \<^verbatim>\<open>git\<close> is not escaped, so the clone URL of \<^verbatim>\<open>alice/foo.bar\<close> is refused
  as no clone URL, that of \<^verbatim>\<open>alice/alice.github.io\<close> gives the repository \<^verbatim>\<open>alice\<close>, and,
  the search being unanchored, a string that is no URL of the pattern is accepted.
\<close>

theorem extractURL_dotted_repo:
  "(user \<noteq> [] \<and> SLASH \<notin> set user \<and> repo \<noteq> [] \<and> DOT \<notin> set repo \<longrightarrow>
      extractURL (clone_url user repo) = Inr (user, repo))
   \<and> (DOT \<in> set repo \<longrightarrow> extractURL (clone_url user repo) \<noteq> Inr (user, repo))
   \<and> extractURL (js ''https://github.com/alice/foo.bar.git'')
       = Inl (Thrown (js ''Plugin repository must be a github https clone url, not `https://github.com/alice/foo.bar.git`''))
   \<and> extractURL (js ''https://github.com/alice/alice.github.io.git'') = Inr (js ''alice'', js ''alice'')
   \<and> extractURL (js ''xhttps://github.com/alice/bXgit'') = Inr (js ''alice'', js ''b'')"
proof (intro conjI impI)
  assume "user \<noteq> [] \<and> SLASH \<notin> set user \<and> repo \<noteq> [] \<and> DOT \<notin> set repo"
  then have "url_exec (clone_url user repo) = Some (user, repo)"
    by (intro url_exec_here url_match_here_clone_url) simp_all
  then show "extractURL (clone_url user repo) = Inr (user, repo)"
    by (simp add: extractURL_def)
next
  assume dot: "DOT \<in> set repo"
  show "extractURL (clone_url user repo) \<noteq> Inr (user, repo)"
  proof
    assume "extractURL (clone_url user repo) = Inr (user, repo)"
    then have "url_exec (clone_url user repo) = Some (user, repo)"
      by (auto simp: extractURL_def split: option.splits)
    then obtain pre rest where "url_match_here rest = Some (user, repo)"
      by (auto dest: url_exec_Some)
    from url_match_here_shape [OF this] have "DOT \<notin> set repo"
      by blast
    with dot show False
      by simp
  qed
next
  show "extractURL (js ''https://github.com/alice/foo.bar.git'')
       = Inl (Thrown (js ''Plugin repository must be a github https clone url, not `https://github.com/alice/foo.bar.git`''))"
    by (simp add: js_def extractURL_def url_match_here_def strip_prefix_def dot_git_def
        line_terminator_def Let_def)
next
  show "extractURL (js ''https://github.com/alice/alice.github.io.git'') = Inr (js ''alice'', js ''alice'')"
    by (simp add: js_def extractURL_def url_match_here_def strip_prefix_def dot_git_def
        line_terminator_def Let_def)
next
  show "extractURL (js ''xhttps://github.com/alice/bXgit'') = Inr (js ''alice'', js ''b'')"
    by (simp add: js_def extractURL_def url_match_here_def strip_prefix_def dot_git_def
        line_terminator_def Let_def)
qed

theorem extractURL_dotted_repo_witness:
  "extractURL (js ''https://github.com/alice/foo.git'') = Inr (js ''alice'', js ''foo'')
   \<and> extractURL (js ''https://github.com/socketio/socket.io.git'')
       \<noteq> Inr (js ''socketio'', js ''socket.io'')"
  using extractURL_dotted_repo [of "js ''alice''" "js ''foo''"]
    extractURL_dotted_repo [of "js ''socketio''" "js ''socket.io''"]
  by (simp add: js_def clone_url_def)

section \<open>The pull request handler and the sticky comment\<close>

lemma setHasLabel_synced:
  "(L \<in> issue_labels gh \<longleftrightarrow> L \<in> S) \<Longrightarrow>
   setHasLabel S c L gh = Done (gh\<lparr>issue_labels := with_label c L (issue_labels gh)\<rparr>)"
  by (auto simp: setHasLabel_def addLabels_def removeLabel_def with_label_def insert_absorb)

lemma label_names_distinct:
  "READY_TO_MERGE \<noteq> PLUGIN_CHANGE" "READY_TO_MERGE \<noteq> DEPENDENCY_CHANGE"
  "READY_TO_MERGE \<noteq> PACKAGE_CHANGE" "PLUGIN_CHANGE \<noteq> DEPENDENCY_CHANGE"
  "PLUGIN_CHANGE \<noteq> PACKAGE_CHANGE" "DEPENDENCY_CHANGE \<noteq> PACKAGE_CHANGE"
  by (simp_all add: js_def READY_TO_MERGE_def PLUGIN_CHANGE_def DEPENDENCY_CHANGE_def PACKAGE_CHANGE_def)

lemma pull_request_unfold:
  "pull_request ev gh =
     (case classify (pr_files ev) of (pluginFiles, dependencyFiles, otherFiles) \<Rightarrow>
        (case promise_all (map (plugin_text ev) pluginFiles) of
           Inl e \<Rightarrow> Failed e (gh\<lparr>issue_labels := labels_after ev (issue_labels gh)\<rparr>)
         | Inr texts \<Rightarrow>
             upsert_comment
               (if dependencyFiles \<noteq> [] \<or> otherFiles \<noteq> []
                then js ''**Includes non-plugin changes**\<newline>\<newline>'' @ join (js ''\<newline>\<newline>'') texts
                else join (js ''\<newline>\<newline>'') texts)
               (gh\<lparr>issue_labels := labels_after ev (issue_labels gh)\<rparr>)))"
proof -
  obtain pf df ofs where cl: "classify (pr_files ev) = (pf, df, ofs)"
    by (cases "classify (pr_files ev)")
  let ?S = "issue_labels gh"
  let ?g1 = "gh\<lparr>issue_labels := ?S - {READY_TO_MERGE}\<rparr>"
  let ?g2 = "gh\<lparr>issue_labels := with_label (pf \<noteq> []) PLUGIN_CHANGE (?S - {READY_TO_MERGE})\<rparr>"
  let ?g3 = "gh\<lparr>issue_labels := with_label (df \<noteq> []) DEPENDENCY_CHANGE
                (with_label (pf \<noteq> []) PLUGIN_CHANGE (?S - {READY_TO_MERGE}))\<rparr>"
  let ?g4 = "gh\<lparr>issue_labels := with_label (ofs \<noteq> []) PACKAGE_CHANGE
                (with_label (df \<noteq> []) DEPENDENCY_CHANGE
                  (with_label (pf \<noteq> []) PLUGIN_CHANGE (?S - {READY_TO_MERGE})))\<rparr>"
  have s1: "setHasLabel ?S False READY_TO_MERGE gh = Done ?g1"
    using setHasLabel_synced [of READY_TO_MERGE gh ?S False] by (simp add: with_label_def)
  have s2: "setHasLabel ?S (pf \<noteq> []) PLUGIN_CHANGE ?g1 = Done ?g2"
    using setHasLabel_synced [of PLUGIN_CHANGE ?g1 ?S "pf \<noteq> []"] label_names_distinct
    by simp
  have s3: "setHasLabel ?S (df \<noteq> []) DEPENDENCY_CHANGE ?g2 = Done ?g3"
    using setHasLabel_synced [of DEPENDENCY_CHANGE ?g2 ?S "df \<noteq> []"] label_names_distinct
    by (simp add: with_label_def)
  have s4: "setHasLabel ?S (ofs \<noteq> []) PACKAGE_CHANGE ?g3 = Done ?g4"
    using setHasLabel_synced [of PACKAGE_CHANGE ?g3 ?S "ofs \<noteq> []"] label_names_distinct
    by (simp add: with_label_def)
  show ?thesis
    unfolding pull_request_def Let_def cl labels_after_def
    by (simp add: s1 s2 s3 s4 and_then_def split: sum.splits)
qed


lemma classify_foldl:
  "foldl (\<lambda>(pluginFiles, dependencyFiles, otherFiles) f.
        if startsWith (filename f) (js ''plugins/'') then (pluginFiles @ [f], dependencyFiles, otherFiles)
        else if filename f = js ''package/verification-template/build.gradle''
              \<or> filename f = js ''package/verification-template/gradle/verification-metadata.xml''
        then (pluginFiles, dependencyFiles @ [f], otherFiles)
        else (pluginFiles, dependencyFiles, otherFiles @ [f]))
       (a, b, c) fs
   = (a @ filter (\<lambda>f. startsWith (filename f) (js ''plugins/'')) fs,
      b @ filter (\<lambda>f. \<not> startsWith (filename f) (js ''plugins/'')
                    \<and> (filename f = js ''package/verification-template/build.gradle''
                       \<or> filename f = js ''package/verification-template/gradle/verification-metadata.xml'')) fs,
      c @ filter (\<lambda>f. \<not> startsWith (filename f) (js ''plugins/'')
                    \<and> \<not> (filename f = js ''package/verification-template/build.gradle''
                       \<or> filename f = js ''package/verification-template/gradle/verification-metadata.xml'')) fs)"
  by (induction fs arbitrary: a b c) simp_all

lemma classify_plugins:
  "fst (classify fs) = filter (\<lambda>f. startsWith (filename f) (js ''plugins/'')) fs"
  unfolding classify_def classify_foldl by simp

lemma promise_all_Inl:
  "Inl e \<in> set rs \<Longrightarrow> \<exists>e'. promise_all rs = Inl e' \<and> Inl e' \<in> set rs"
proof (induction rs)
  case Nil
  then show ?case by simp
next
  case (Cons r rs)
  show ?case
  proof (cases r)
    case (Inl a)
    then show ?thesis by auto
  next
    case (Inr x)
    with Cons obtain e' where "promise_all rs = Inl e'" "Inl e' \<in> set rs"
      by auto
    with Inr show ?thesis by auto
  qed
qed

lemma upsert_comment_labels:
  "issue_labels (state_of (upsert_comment t gh)) = issue_labels gh"
  by (simp add: upsert_comment_def updateComment_def createComment_def Let_def split: option.splits)

lemma failed_text_fails_handler:
  assumes "f \<in> set (pr_files ev)" and "startsWith (filename f) (js ''plugins/'')"
    and "plugin_text ev f = Inl e"
  shows "\<exists>e' gh'. pull_request ev gh = Failed e' gh'
           \<and> issue_comments gh' = issue_comments gh
           \<and> (\<exists>f'\<in>set (pr_files ev). plugin_text ev f' = Inl e')"
proof -
  obtain pf df ofs where cl: "classify (pr_files ev) = (pf, df, ofs)"
    by (cases "classify (pr_files ev)")
  then have pf: "pf = filter (\<lambda>f. startsWith (filename f) (js ''plugins/'')) (pr_files ev)"
    using classify_plugins [of "pr_files ev"] by simp
  with assms have "Inl e \<in> set (map (plugin_text ev) pf)"
    by (auto intro: rev_image_eqI)
  from promise_all_Inl [OF this] obtain e' where
    e': "promise_all (map (plugin_text ev) pf) = Inl e'" "Inl e' \<in> set (map (plugin_text ev) pf)"
    by blast
  from e'(2) pf have "\<exists>f'\<in>set (pr_files ev). plugin_text ev f' = Inl e'"
    by auto
  moreover have "pull_request ev gh
                   = Failed e' (gh\<lparr>issue_labels := labels_after ev (issue_labels gh)\<rparr>)"
    unfolding pull_request_unfold cl by (simp add: e'(1))
  ultimately show ?thesis
    by (intro exI [of _ e'] exI [of _ "gh\<lparr>issue_labels := labels_after ev (issue_labels gh)\<rparr>"])
      simp
qed

text \<open>
  Claim C6. Let \<open>f\<close> be a plugin file of the pull request. When \<open>extractURL\<close> throws for it,
  be it on the repository of the fetched file (line 80), on the repository of the file on
  master of a modified plugin (line 84) or on that of the previous file of a renamed plugin
  (line 91), the handler fails with the error of a plugin file and the comments of the issue
  are exactly as before: the sticky comment is neither created nor updated. The same holds
  for every other failure of the text of a plugin file (a failed fetch, a rename without a
  previous name).
\<close>

theorem extraction_failure_blocks_comment:
  assumes "f \<in> set (pr_files ev)" and "startsWith (filename f) (js ''plugins/'')"
  shows
    "(status f \<noteq> js ''removed'' \<and> web ev (raw_url f) = Some res
        \<and> extractURL (js_string (js_get (readKV res) (js ''repository''))) = Inl e \<longrightarrow>
        (\<exists>e' gh'. pull_request ev gh = Failed e' gh'
           \<and> issue_comments gh' = issue_comments gh
           \<and> (\<exists>f'\<in>set (pr_files ev). plugin_text ev f' = Inl e')))
     \<and> (status f = js ''modified'' \<and> web ev (raw_url f) = Some res
        \<and> extractURL (js_string (js_get (readKV res) (js ''repository''))) = Inr new_url
        \<and> web ev (master_url ev (replace_first (filename f) (js ''plugins/'') [])) = Some old_res
        \<and> extractURL (js_string (js_get (readKV old_res) (js ''repository''))) = Inl e \<longrightarrow>
        (\<exists>e' gh'. pull_request ev gh = Failed e' gh'
           \<and> issue_comments gh' = issue_comments gh
           \<and> (\<exists>f'\<in>set (pr_files ev). plugin_text ev f' = Inl e')))
     \<and> (status f = js ''renamed'' \<and> previous_filename f = Some previous
        \<and> web ev (raw_url f) = Some res
        \<and> extractURL (js_string (js_get (readKV res) (js ''repository''))) = Inr new_url
        \<and> web ev (master_url ev (replace_first previous (js ''plugins/'') [])) = Some old_res
        \<and> extractURL (js_string (js_get (readKV old_res) (js ''repository''))) = Inl e \<longrightarrow>
        (\<exists>e' gh'. pull_request ev gh = Failed e' gh'
           \<and> issue_comments gh' = issue_comments gh
           \<and> (\<exists>f'\<in>set (pr_files ev). plugin_text ev f' = Inl e')))
     \<and> (plugin_text ev f = Inl e \<longrightarrow>
        (\<exists>e' gh'. pull_request ev gh = Failed e' gh'
           \<and> issue_comments gh' = issue_comments gh
           \<and> (\<exists>f'\<in>set (pr_files ev). plugin_text ev f' = Inl e')))"
proof (intro conjI impI)
  assume "status f \<noteq> js ''removed'' \<and> web ev (raw_url f) = Some res
        \<and> extractURL (js_string (js_get (readKV res) (js ''repository''))) = Inl e"
  then have "plugin_text ev f = Inl e"
    by (simp add: plugin_text_def request_def bind_result_def Let_def)
  then show "\<exists>e' gh'. pull_request ev gh = Failed e' gh'
           \<and> issue_comments gh' = issue_comments gh
           \<and> (\<exists>f'\<in>set (pr_files ev). plugin_text ev f' = Inl e')"
    by (rule failed_text_fails_handler [OF assms])
next
  assume a: "status f = js ''modified'' \<and> web ev (raw_url f) = Some res
        \<and> extractURL (js_string (js_get (readKV res) (js ''repository''))) = Inr new_url
        \<and> web ev (master_url ev (replace_first (filename f) (js ''plugins/'') [])) = Some old_res
        \<and> extractURL (js_string (js_get (readKV old_res) (js ''repository''))) = Inl e"
  have "js ''modified'' \<noteq> js ''removed''"
    by (simp add: js_def)
  with a have "plugin_text ev f = Inl e"
    by (simp add: plugin_text_def request_def bind_result_def Let_def split: prod.splits)
  then show "\<exists>e' gh'. pull_request ev gh = Failed e' gh'
           \<and> issue_comments gh' = issue_comments gh
           \<and> (\<exists>f'\<in>set (pr_files ev). plugin_text ev f' = Inl e')"
    by (rule failed_text_fails_handler [OF assms])
next
  assume a: "status f = js ''renamed'' \<and> previous_filename f = Some previous
        \<and> web ev (raw_url f) = Some res
        \<and> extractURL (js_string (js_get (readKV res) (js ''repository''))) = Inr new_url
        \<and> web ev (master_url ev (replace_first previous (js ''plugins/'') [])) = Some old_res
        \<and> extractURL (js_string (js_get (readKV old_res) (js ''repository''))) = Inl e"
  have "js ''renamed'' \<noteq> js ''removed''" "js ''renamed'' \<noteq> js ''modified''"
    "js ''renamed'' \<noteq> js ''added''"
    by (simp_all add: js_def)
  with a have "plugin_text ev f = Inl e"
    by (simp add: plugin_text_def request_def bind_result_def Let_def split: prod.splits)
  then show "\<exists>e' gh'. pull_request ev gh = Failed e' gh'
           \<and> issue_comments gh' = issue_comments gh
           \<and> (\<exists>f'\<in>set (pr_files ev). plugin_text ev f' = Inl e')"
    by (rule failed_text_fails_handler [OF assms])
next
  assume "plugin_text ev f = Inl e"
  then show "\<exists>e' gh'. pull_request ev gh = Failed e' gh'
           \<and> issue_comments gh' = issue_comments gh
           \<and> (\<exists>f'\<in>set (pr_files ev). plugin_text ev f' = Inl e')"
    by (rule failed_text_fails_handler [OF assms])
qed

theorem extraction_failure_blocks_comment_witness:
  "(\<exists>e' gh'. pull_request
        \<lparr>pr_files = [\<lparr>filename = js ''plugins/foo'', status = js ''added'',
                       raw_url = js ''raw/foo'', previous_filename = None\<rparr>],
         repo_owner = js ''runelite'', repo_name = js ''plugin-hub'',
         web = (\<lambda>u. if u = js ''raw/foo''
                     then Some (js ''repository=git@github.com:alice/foo.git\<newline>commit=abc123\<newline>'')
                     else None)\<rparr>
        \<lparr>issue_labels = {}, issue_comments = [\<lparr>comment_id = 7, comment_body = js ''<!-- rlphc -->\<newline>old''\<rparr>]\<rparr>
        = Failed e' gh'
      \<and> issue_comments gh' = [\<lparr>comment_id = 7, comment_body = js ''<!-- rlphc -->\<newline>old''\<rparr>])
   \<and> (\<exists>e' gh'. pull_request
        \<lparr>pr_files = [\<lparr>filename = js ''plugins/foo'', status = js ''modified'',
                       raw_url = js ''raw/foo'', previous_filename = None\<rparr>],
         repo_owner = js ''runelite'', repo_name = js ''plugin-hub'',
         web = (\<lambda>u. if u = js ''raw/foo''
                     then Some (js ''repository=https://github.com/alice/foo.git\<newline>commit=abc123\<newline>'')
                     else if u = js ''https://github.com/runelite/plugin-hub/raw/master/plugins/foo''
                     then Some (js ''repository=git://example.org/foo\<newline>commit=000\<newline>'')
                     else None)\<rparr>
        \<lparr>issue_labels = {}, issue_comments = [\<lparr>comment_id = 7, comment_body = js ''<!-- rlphc -->\<newline>old''\<rparr>]\<rparr>
        = Failed e' gh'
      \<and> issue_comments gh' = [\<lparr>comment_id = 7, comment_body = js ''<!-- rlphc -->\<newline>old''\<rparr>])
   \<and> (\<exists>e' gh'. pull_request
        \<lparr>pr_files = [\<lparr>filename = js ''plugins/foo'', status = js ''renamed'',
                       raw_url = js ''raw/foo'', previous_filename = Some (js ''plugins/bar'')\<rparr>],
         repo_owner = js ''runelite'', repo_name = js ''plugin-hub'',
         web = (\<lambda>u. if u = js ''raw/foo''
                     then Some (js ''repository=https://github.com/alice/foo.git\<newline>commit=abc123\<newline>'')
                     else if u = js ''https://github.com/runelite/plugin-hub/raw/master/plugins/bar''
                     then Some (js ''commit=000\<newline>'')
                     else None)\<rparr>
        \<lparr>issue_labels = {}, issue_comments = [\<lparr>comment_id = 7, comment_body = js ''<!-- rlphc -->\<newline>old''\<rparr>]\<rparr>
        = Failed e' gh'
      \<and> issue_comments gh' = [\<lparr>comment_id = 7, comment_body = js ''<!-- rlphc -->\<newline>old''\<rparr>])"
proof -
  let ?gh = "\<lparr>issue_labels = {}, issue_comments = [\<lparr>comment_id = 7, comment_body = js ''<!-- rlphc -->\<newline>old''\<rparr>]\<rparr>"
  let ?good = "js ''repository=https://github.com/alice/foo.git\<newline>commit=abc123\<newline>''"
  let ?bad1 = "js ''repository=git@github.com:alice/foo.git\<newline>commit=abc123\<newline>''"
  let ?bad2 = "js ''repository=git://example.org/foo\<newline>commit=000\<newline>''"
  let ?bad3 = "js ''commit=000\<newline>''"
  let ?f1 = "\<lparr>filename = js ''plugins/foo'', status = js ''added'',
               raw_url = js ''raw/foo'', previous_filename = None\<rparr>"
  let ?f2 = "\<lparr>filename = js ''plugins/foo'', status = js ''modified'',
               raw_url = js ''raw/foo'', previous_filename = None\<rparr>"
  let ?f3 = "\<lparr>filename = js ''plugins/foo'', status = js ''renamed'',
               raw_url = js ''raw/foo'', previous_filename = Some (js ''plugins/bar'')\<rparr>"
  let ?ev1 = "\<lparr>pr_files = [?f1], repo_owner = js ''runelite'', repo_name = js ''plugin-hub'',
         web = (\<lambda>u. if u = js ''raw/foo'' then Some ?bad1 else None)\<rparr>"
  let ?ev2 = "\<lparr>pr_files = [?f2], repo_owner = js ''runelite'', repo_name = js ''plugin-hub'',
         web = (\<lambda>u. if u = js ''raw/foo'' then Some ?good
                     else if u = js ''https://github.com/runelite/plugin-hub/raw/master/plugins/foo''
                     then Some ?bad2 else None)\<rparr>"
  let ?ev3 = "\<lparr>pr_files = [?f3], repo_owner = js ''runelite'', repo_name = js ''plugin-hub'',
         web = (\<lambda>u. if u = js ''raw/foo'' then Some ?good
                     else if u = js ''https://github.com/runelite/plugin-hub/raw/master/plugins/bar''
                     then Some ?bad3 else None)\<rparr>"
  let ?e1 = "Thrown (js ''Plugin repository must be a github https clone url, not `git@github.com:alice/foo.git`'')"
  let ?e2 = "Thrown (js ''Plugin repository must be a github https clone url, not `git://example.org/foo`'')"
  let ?e3 = "Thrown (js ''Plugin repository must be a github https clone url, not `undefined`'')"
  have good: "extractURL (js_string (js_get (readKV ?good) (js ''repository'')))
                = Inr (js ''alice'', js ''foo'')"
    by (simp add: js_def readKV_def kv_match_here_def js_set_def js_get_def js_string_def
        line_terminator_def extractURL_def url_match_here_def strip_prefix_def dot_git_def Let_def)
  have bad1: "extractURL (js_string (js_get (readKV ?bad1) (js ''repository'')))
                = Inl ?e1"
    by (simp add: js_def readKV_def kv_match_here_def js_set_def js_get_def js_string_def
        line_terminator_def extractURL_def url_match_here_def strip_prefix_def dot_git_def Let_def)
  have bad2: "extractURL (js_string (js_get (readKV ?bad2) (js ''repository'')))
                = Inl ?e2"
    by (simp add: js_def readKV_def kv_match_here_def js_set_def js_get_def js_string_def
        line_terminator_def extractURL_def url_match_here_def strip_prefix_def dot_git_def Let_def)
  have bad3: "extractURL (js_string (js_get (readKV ?bad3) (js ''repository'')))
                = Inl ?e3"
    by (simp add: js_def readKV_def kv_match_here_def js_set_def js_get_def js_string_def
        line_terminator_def extractURL_def url_match_here_def strip_prefix_def dot_git_def Let_def)
  have m2: "master_url ?ev2 (replace_first (filename ?f2) (js ''plugins/'') [])
              = js ''https://github.com/runelite/plugin-hub/raw/master/plugins/foo''"
    by (simp add: js_def master_url_def)
  have m3: "master_url ?ev3 (replace_first (js ''plugins/bar'') (js ''plugins/'') [])
              = js ''https://github.com/runelite/plugin-hub/raw/master/plugins/bar''"
    by (simp add: js_def master_url_def)
  have ne: "js ''https://github.com/runelite/plugin-hub/raw/master/plugins/foo'' \<noteq> js ''raw/foo''"
    "js ''https://github.com/runelite/plugin-hub/raw/master/plugins/bar'' \<noteq> js ''raw/foo''"
    "js ''added'' \<noteq> js ''removed''"
    by (simp_all add: js_def)
  have sw: "startsWith (js ''plugins/foo'') (js ''plugins/'')"
    by (simp add: js_def)
  have c1: "\<exists>e' gh'. pull_request ?ev1 ?gh = Failed e' gh' \<and> issue_comments gh' = issue_comments ?gh"
    using extraction_failure_blocks_comment [of ?f1 ?ev1 ?bad1 ?e1 ?gh] bad1 ne sw
    by auto
  have c2: "\<exists>e' gh'. pull_request ?ev2 ?gh = Failed e' gh' \<and> issue_comments gh' = issue_comments ?gh"
    using extraction_failure_blocks_comment
      [of ?f2 ?ev2 ?good ?e2 ?gh "(js ''alice'', js ''foo'')" ?bad2] good bad2 m2 ne sw
    by auto
  have c3: "\<exists>e' gh'. pull_request ?ev3 ?gh = Failed e' gh' \<and> issue_comments gh' = issue_comments ?gh"
    using extraction_failure_blocks_comment
      [of ?f3 ?ev3 ?good ?e3 ?gh "(js ''alice'', js ''foo'')" ?bad3 "js ''plugins/bar''"]
      good bad3 m3 ne sw
    by auto
  show ?thesis
    using c1 c2 c3 by simp
qed

lemma classify_dependency_only:
  assumes "map filename fs = [js ''package/verification-template/build.gradle'']"
  shows "\<exists>f. fs = [f] \<and> classify fs = ([], [f], [])"
proof -
  from assms obtain f where f: "fs = [f]" "filename f = js ''package/verification-template/build.gradle''"
    by (cases fs) auto
  then show ?thesis
    by (simp add: js_def classify_def)
qed

text \<open>
  Claim C1, amended. For a pull request whose file list holds only
  \<^verbatim>\<open>package/verification-template/build.gradle\<close> there is no plugin file and so no plugin
  text, but the warning about non-plugin changes is still put in front of the empty text. The
  handler completes; when no comment starts with the marker it creates a comment whose body is
  the marker line followed by the warning line, and when one does it overwrites the first such
  comment with that body.
\<close>

theorem dependency_only_comment:
  assumes "map filename (pr_files ev) = [js ''package/verification-template/build.gradle'']"
  shows "fst (classify (pr_files ev)) = []
    \<and> (find (\<lambda>c. startsWith (comment_body c) marker) (issue_comments gh) = None \<longrightarrow>
         pull_request ev gh =
           Done (gh\<lparr>issue_labels :=
                      insert DEPENDENCY_CHANGE
                        (issue_labels gh - {READY_TO_MERGE, PLUGIN_CHANGE, PACKAGE_CHANGE}),
                    issue_comments :=
                      issue_comments gh @
                        [\<lparr>comment_id = fresh_id (issue_comments gh),
                          comment_body = marker @ js ''\<newline>**Includes non-plugin changes**\<newline>\<newline>''\<rparr>]\<rparr>))
    \<and> (find (\<lambda>c. startsWith (comment_body c) marker) (issue_comments gh) = Some sticky \<longrightarrow>
         pull_request ev gh =
           Done (gh\<lparr>issue_labels :=
                      insert DEPENDENCY_CHANGE
                        (issue_labels gh - {READY_TO_MERGE, PLUGIN_CHANGE, PACKAGE_CHANGE}),
                    issue_comments :=
                      map (\<lambda>c. if comment_id c = comment_id sticky
                               then c\<lparr>comment_body :=
                                        marker @ js ''\<newline>**Includes non-plugin changes**\<newline>\<newline>''\<rparr>
                               else c)
                        (issue_comments gh)\<rparr>))"
proof -
  from classify_dependency_only [OF assms] obtain f where
    cl: "classify (pr_files ev) = ([], [f], [])"
    by blast
  have la: "labels_after ev (issue_labels gh)
              = insert DEPENDENCY_CHANGE
                  (issue_labels gh - {READY_TO_MERGE, PLUGIN_CHANGE, PACKAGE_CHANGE})"
    using label_names_distinct by (auto simp: labels_after_def cl with_label_def)
  have pr: "pull_request ev gh =
              upsert_comment (js ''**Includes non-plugin changes**\<newline>\<newline>'')
                (gh\<lparr>issue_labels := labels_after ev (issue_labels gh)\<rparr>)"
    unfolding pull_request_unfold cl by simp
  show ?thesis
    unfolding pr la
    by (simp add: js_def cl upsert_comment_def createComment_def updateComment_def Let_def)
qed

text \<open>
  Claim C1, as stated, fails: for a pull request that touches only
  \<^verbatim>\<open>package/verification-template/build.gradle\<close>, on an issue without comments, the handler
  creates a comment, and its body is the marker line followed by the warning line.
\<close>

theorem dependency_only_counterexample:
  "map filename (pr_files
      \<lparr>pr_files = [\<lparr>filename = js ''package/verification-template/build.gradle'',
                     status = js ''modified'', raw_url = js ''raw/build.gradle'',
                     previous_filename = None\<rparr>],
       repo_owner = js ''runelite'', repo_name = js ''plugin-hub'', web = (\<lambda>u. None)\<rparr>)
     = [js ''package/verification-template/build.gradle'']
   \<and> pull_request
      \<lparr>pr_files = [\<lparr>filename = js ''package/verification-template/build.gradle'',
                     status = js ''modified'', raw_url = js ''raw/build.gradle'',
                     previous_filename = None\<rparr>],
       repo_owner = js ''runelite'', repo_name = js ''plugin-hub'', web = (\<lambda>u. None)\<rparr>
      \<lparr>issue_labels = {}, issue_comments = []\<rparr>
     = Done \<lparr>issue_labels = {js ''dependency change''},
             issue_comments =
               [\<lparr>comment_id = 1,
                 comment_body = js ''<!-- rlphc -->\<newline>**Includes non-plugin changes**\<newline>\<newline>''\<rparr>]\<rparr>"
  by (simp add: pull_request_def classify_def setHasLabel_def addLabels_def removeLabel_def
      and_then_def upsert_comment_def createComment_def fresh_id_def marker_def
      READY_TO_MERGE_def PLUGIN_CHANGE_def DEPENDENCY_CHANGE_def PACKAGE_CHANGE_def js_def)


theorem dependency_only_comment_witness:
  "map filename (pr_files
      \<lparr>pr_files = [\<lparr>filename = js ''package/verification-template/build.gradle'',
                     status = js ''modified'', raw_url = js ''raw/build.gradle'',
                     previous_filename = None\<rparr>],
       repo_owner = js ''runelite'', repo_name = js ''plugin-hub'', web = (\<lambda>u. None)\<rparr>)
     = [js ''package/verification-template/build.gradle'']
   \<and> pull_request
      \<lparr>pr_files = [\<lparr>filename = js ''package/verification-template/build.gradle'',
                     status = js ''modified'', raw_url = js ''raw/build.gradle'',
                     previous_filename = None\<rparr>],
       repo_owner = js ''runelite'', repo_name = js ''plugin-hub'', web = (\<lambda>u. None)\<rparr>
      \<lparr>issue_labels = {js ''ready to merge''},
        issue_comments = [\<lparr>comment_id = 4, comment_body = js ''hello''\<rparr>]\<rparr>
     = Done \<lparr>issue_labels = {js ''dependency change''},
             issue_comments =
               [\<lparr>comment_id = 4, comment_body = js ''hello''\<rparr>,
                \<lparr>comment_id = 5,
                 comment_body = js ''<!-- rlphc -->\<newline>**Includes non-plugin changes**\<newline>\<newline>''\<rparr>]\<rparr>"
proof -
  let ?ev = "\<lparr>pr_files = [\<lparr>filename = js ''package/verification-template/build.gradle'',
                     status = js ''modified'', raw_url = js ''raw/build.gradle'',
                     previous_filename = None\<rparr>],
       repo_owner = js ''runelite'', repo_name = js ''plugin-hub'', web = (\<lambda>u. None)\<rparr>"
  let ?gh = "\<lparr>issue_labels = {js ''ready to merge''},
        issue_comments = [\<lparr>comment_id = 4, comment_body = js ''hello''\<rparr>]\<rparr>"
  have h: "map filename (pr_files ?ev) = [js ''package/verification-template/build.gradle'']"
    by simp
  show ?thesis
    using dependency_only_comment [OF h, of ?gh]
    by (simp add: js_def marker_def fresh_id_def READY_TO_MERGE_def PLUGIN_CHANGE_def
        PACKAGE_CHANGE_def DEPENDENCY_CHANGE_def)
qed

lemma fresh_id_greater: "c \<in> set cs \<Longrightarrow> comment_id c < fresh_id cs"
proof -
  assume "c \<in> set cs"
  then have "comment_id c \<in> set (0 # map comment_id cs)"
    by simp
  then have "comment_id c \<le> Max (set (0 # map comment_id cs))"
    by (intro Max_ge) simp_all
  then show ?thesis
    unfolding fresh_id_def Max.set_eq_fold by simp
qed

lemma find_takeWhile:
  "find P xs =
     (if length (takeWhile (\<lambda>x. \<not> P x) xs) < length xs
      then Some (xs ! length (takeWhile (\<lambda>x. \<not> P x) xs)) else None)"
  by (induction xs) auto

lemma map_update_distinct:
  assumes "distinct (map g xs)" and "i < length xs"
  shows "map (\<lambda>c. if g c = g (xs ! i) then h c else c) xs = xs[i := h (xs ! i)]"
proof (rule nth_equalityI)
  show "length (map (\<lambda>c. if g c = g (xs ! i) then h c else c) xs) = length (xs[i := h (xs ! i)])"
    by simp
next
  fix j
  assume "j < length (map (\<lambda>c. if g c = g (xs ! i) then h c else c) xs)"
  then have j: "j < length xs"
    by simp
  have "(map g xs ! j = map g xs ! i) = (j = i)"
    using assms j by (intro nth_eq_iff_index_eq) simp_all
  then have "(g (xs ! j) = g (xs ! i)) = (j = i)"
    using assms(2) j by simp
  then show "map (\<lambda>c. if g c = g (xs ! i) then h c else c) xs ! j = xs[i := h (xs ! i)] ! j"
    using j assms(2) by (auto simp: nth_list_update)
qed

lemma updateComment_in_place:
  assumes "distinct (map comment_id (issue_comments gh))" and "i < length (issue_comments gh)"
  shows "updateComment (comment_id (issue_comments gh ! i)) b gh =
           Done (gh\<lparr>issue_comments :=
                   (issue_comments gh)[i := (issue_comments gh ! i)\<lparr>comment_body := b\<rparr>]\<rparr>)"
  unfolding updateComment_def
  using map_update_distinct [OF assms, of "\<lambda>c. c\<lparr>comment_body := b\<rparr>"]
  by simp

lemma upsert_comment_in_place:
  assumes "distinct (map comment_id (issue_comments gh))"
  shows "upsert_comment t gh =
     Done (gh\<lparr>issue_comments :=
       (let cs = issue_comments gh;
            i = length (takeWhile (\<lambda>c. \<not> startsWith (comment_body c) marker) cs)
        in if i < length cs then cs[i := (cs ! i)\<lparr>comment_body := marker @ js ''\<newline>'' @ t\<rparr>]
           else if t \<noteq> [] then cs @ [\<lparr>comment_id = fresh_id cs,
                                        comment_body = marker @ js ''\<newline>'' @ t\<rparr>]
           else cs)\<rparr>)"
proof -
  let ?cs = "issue_comments gh"
  let ?i = "length (takeWhile (\<lambda>c. \<not> startsWith (comment_body c) marker) ?cs)"
  show ?thesis
  proof (cases "?i < length ?cs")
    case True
    then have f: "find (\<lambda>c. startsWith (comment_body c) marker) ?cs = Some (?cs ! ?i)"
      by (simp add: find_takeWhile)
    show ?thesis
      using True
      by (simp add: upsert_comment_def f updateComment_in_place [OF assms True] Let_def)
  next
    case False
    then have f: "find (\<lambda>c. startsWith (comment_body c) marker) ?cs = None"
      by (simp add: find_takeWhile)
    show ?thesis
      using False by (simp add: upsert_comment_def f createComment_def Let_def)
  qed
qed

lemma upsert_comment_invariant:
  assumes "distinct (map comment_id (issue_comments gh))"
    and "sticky_count (issue_comments gh) \<le> 1"
  shows "distinct (map comment_id (issue_comments (state_of (upsert_comment t gh))))
       \<and> sticky_count (issue_comments (state_of (upsert_comment t gh))) \<le> 1"
proof -
  let ?P = "\<lambda>c. startsWith (comment_body c) marker"
  let ?cs = "issue_comments gh"
  let ?i = "length (takeWhile (\<lambda>c. \<not> ?P c) ?cs)"
  let ?b = "marker @ js ''\<newline>'' @ t"
  have b: "startsWith ?b marker"
    by (simp add: startsWith_iff)
  show ?thesis
  proof (cases "?i < length ?cs")
    case True
    then have P: "?P (?cs ! ?i)"
      using nth_length_takeWhile [of "\<lambda>c. \<not> ?P c" ?cs] by simp
    have "filter ?P (?cs[?i := (?cs ! ?i)\<lparr>comment_body := ?b\<rparr>])
            = (filter ?P ?cs)[length (filter ?P (take ?i ?cs)) := (?cs ! ?i)\<lparr>comment_body := ?b\<rparr>]"
    proof -
      have parts: "?cs = take ?i ?cs @ (?cs ! ?i) # drop (Suc ?i) ?cs"
        using True by (simp add: id_take_nth_drop)
      have upd: "?cs[?i := (?cs ! ?i)\<lparr>comment_body := ?b\<rparr>]
               = take ?i ?cs @ (?cs ! ?i)\<lparr>comment_body := ?b\<rparr> # drop (Suc ?i) ?cs"
        using True by (simp add: upd_conv_take_nth_drop)
      have "filter ?P ?cs = filter ?P (take ?i ?cs) @ (?cs ! ?i) # filter ?P (drop (Suc ?i) ?cs)"
        using P by (subst parts) simp
      moreover have "filter ?P (?cs[?i := (?cs ! ?i)\<lparr>comment_body := ?b\<rparr>])
          = filter ?P (take ?i ?cs) @ (?cs ! ?i)\<lparr>comment_body := ?b\<rparr> # filter ?P (drop (Suc ?i) ?cs)"
        using b by (subst upd) simp
      ultimately show ?thesis
        by (simp add: list_update_append)
    qed
    then have "sticky_count (?cs[?i := (?cs ! ?i)\<lparr>comment_body := ?b\<rparr>]) = sticky_count ?cs"
      by (simp add: sticky_count_def)
    moreover have "map comment_id (?cs[?i := (?cs ! ?i)\<lparr>comment_body := ?b\<rparr>]) = map comment_id ?cs"
      using True by (simp add: map_update list_update_same_conv)
    ultimately show ?thesis
      using assms True by (simp add: upsert_comment_in_place [OF assms(1)] Let_def)
  next
    case False
    then have "?i = length ?cs"
      using length_takeWhile_le [of "\<lambda>c. \<not> ?P c" ?cs] by simp
    then have "takeWhile (\<lambda>c. \<not> ?P c) ?cs = ?cs"
      by (metis takeWhile_eq_take take_all_iff order_refl)
    then have "\<forall>c\<in>set ?cs. \<not> ?P c"
      by (simp add: takeWhile_eq_all_conv)
    then have none: "filter ?P ?cs = []"
      by (simp add: filter_empty_conv)
    have "fresh_id ?cs \<notin> comment_id ` set ?cs"
      using fresh_id_greater [of _ ?cs] by fastforce
    then show ?thesis
      using assms False none b
      by (simp add: upsert_comment_in_place [OF assms(1)] Let_def sticky_count_def)
  qed
qed

lemma pull_request_comments:
  "issue_comments (state_of (pull_request ev gh)) = issue_comments gh
   \<or> (\<exists>t. issue_comments (state_of (pull_request ev gh))
            = issue_comments (state_of (upsert_comment t
                (gh\<lparr>issue_labels := labels_after ev (issue_labels gh)\<rparr>))))"
  unfolding pull_request_unfold
  by (auto split: prod.splits sum.splits)

lemma review_comments:
  "issue_comments (state_of (pull_request_review_submitted ev gh)) = issue_comments gh"
  by (simp add: pull_request_review_submitted_def Let_def addLabels_def removeLabel_def)

lemma handle_invariant:
  assumes "distinct (map comment_id (issue_comments gh))"
    and "sticky_count (issue_comments gh) \<le> 1"
  shows "distinct (map comment_id (issue_comments (state_of (handle ev gh))))
       \<and> sticky_count (issue_comments (state_of (handle ev gh))) \<le> 1"
proof (cases ev)
  case (PullRequest p)
  let ?g = "gh\<lparr>issue_labels := labels_after p (issue_labels gh)\<rparr>"
  have "distinct (map comment_id (issue_comments ?g))" "sticky_count (issue_comments ?g) \<le> 1"
    using assms by simp_all
  from upsert_comment_invariant [OF this] pull_request_comments [of p gh] assms
  show ?thesis
    unfolding PullRequest by auto
next
  case (ReviewSubmitted r)
  with assms show ?thesis
    by (simp add: review_comments)
qed

lemma deliveries_invariant:
  "distinct (map comment_id (issue_comments gh)) \<Longrightarrow> sticky_count (issue_comments gh) \<le> 1 \<Longrightarrow>
   distinct (map comment_id (issue_comments (deliveries evs gh)))
   \<and> sticky_count (issue_comments (deliveries evs gh)) \<le> 1"
proof (induction evs arbitrary: gh)
  case Nil
  then show ?case by simp
next
  case (Cons ev evs)
  show ?case
    using Cons.IH [of "state_of (handle ev gh)"] handle_invariant [OF Cons.prems, of ev]
    by simp
qed


text \<open>
  Claim C9. On an issue whose comment ids are distinct and that has at most one comment
  starting with the marker, every sequence of deliveries (pull request events with any file
  list and any fetched contents, review events) leaves at most one such comment. The upsert
  looks for the first comment starting with the marker: when there is one it overwrites the
  body of that comment in place and changes no other; only when there is none, and the text is
  not empty, it appends a new comment.
\<close>

theorem sticky_comment_unique:
  "(distinct (map comment_id (issue_comments gh)) \<and> sticky_count (issue_comments gh) \<le> 1 \<longrightarrow>
      distinct (map comment_id (issue_comments (deliveries evs gh)))
      \<and> sticky_count (issue_comments (deliveries evs gh)) \<le> 1)
   \<and> (distinct (map comment_id (issue_comments gh)) \<longrightarrow>
        upsert_comment t gh =
          Done (gh\<lparr>issue_comments :=
            (let cs = issue_comments gh;
                 i = length (takeWhile (\<lambda>c. \<not> startsWith (comment_body c) marker) cs)
             in if i < length cs then cs[i := (cs ! i)\<lparr>comment_body := marker @ js ''\<newline>'' @ t\<rparr>]
                else if t \<noteq> [] then cs @ [\<lparr>comment_id = fresh_id cs,
                                             comment_body = marker @ js ''\<newline>'' @ t\<rparr>]
                else cs)\<rparr>))"
  using deliveries_invariant [of gh evs] upsert_comment_in_place [of gh t]
  by blast

theorem sticky_comment_unique_witness:
  "distinct (map comment_id
      [\<lparr>comment_id = 1, comment_body = js ''hi''\<rparr>,
       \<lparr>comment_id = 2, comment_body = js ''<!-- rlphc -->\<newline>old''\<rparr>])
   \<and> sticky_count
      [\<lparr>comment_id = 1, comment_body = js ''hi''\<rparr>,
       \<lparr>comment_id = 2, comment_body = js ''<!-- rlphc -->\<newline>old''\<rparr>] \<le> 1
   \<and> sticky_count (issue_comments (deliveries
        [PullRequest \<lparr>pr_files = [\<lparr>filename = js ''plugins/foo'', status = js ''removed'',
                                     raw_url = js ''raw/foo'', previous_filename = None\<rparr>],
                       repo_owner = js ''runelite'', repo_name = js ''plugin-hub'',
                       web = (\<lambda>u. None)\<rparr>,
         ReviewSubmitted \<lparr>reviews = [], memberList = []\<rparr>]
        \<lparr>issue_labels = {},
          issue_comments = [\<lparr>comment_id = 1, comment_body = js ''hi''\<rparr>,
                            \<lparr>comment_id = 2, comment_body = js ''<!-- rlphc -->\<newline>old''\<rparr>]\<rparr>)) \<le> 1
   \<and> upsert_comment (js ''new'')
        \<lparr>issue_labels = {},
          issue_comments = [\<lparr>comment_id = 1, comment_body = js ''hi''\<rparr>,
                            \<lparr>comment_id = 2, comment_body = js ''<!-- rlphc -->\<newline>old''\<rparr>]\<rparr>
      = Done \<lparr>issue_labels = {},
          issue_comments = [\<lparr>comment_id = 1, comment_body = js ''hi''\<rparr>,
                            \<lparr>comment_id = 2, comment_body = js ''<!-- rlphc -->\<newline>new''\<rparr>]\<rparr>"
proof -
  let ?cs = "[\<lparr>comment_id = 1, comment_body = js ''hi''\<rparr>,
              \<lparr>comment_id = 2, comment_body = js ''<!-- rlphc -->\<newline>old''\<rparr>]"
  have d: "distinct (map comment_id ?cs)"
    by simp
  have c: "sticky_count ?cs \<le> 1"
    by (simp add: js_def sticky_count_def marker_def)
  show ?thesis
    using d c sticky_comment_unique
      [of "\<lparr>issue_labels = {}, issue_comments = ?cs\<rparr>"
          "[PullRequest \<lparr>pr_files = [\<lparr>filename = js ''plugins/foo'', status = js ''removed'',
                                     raw_url = js ''raw/foo'', previous_filename = None\<rparr>],
                       repo_owner = js ''runelite'', repo_name = js ''plugin-hub'',
                       web = (\<lambda>u. None)\<rparr>,
            ReviewSubmitted \<lparr>reviews = [], memberList = []\<rparr>]"
          "js ''new''"]
    by (simp add: js_def marker_def)
qed

section \<open>Further properties of the pull request handler\<close>

text \<open>
  The classifier is a partition: every file of the list lands in exactly one of the three
  sequences, by the precedence of lines 44--51, and each sequence keeps the order of the list.
\<close>

theorem classify_partition:
  "classify fs =
     (filter (\<lambda>f. startsWith (filename f) (js ''plugins/'')) fs,
      filter (\<lambda>f. \<not> startsWith (filename f) (js ''plugins/'')
                  \<and> (filename f = js ''package/verification-template/build.gradle''
                     \<or> filename f = js ''package/verification-template/gradle/verification-metadata.xml'')) fs,
      filter (\<lambda>f. \<not> startsWith (filename f) (js ''plugins/'')
                  \<and> \<not> (filename f = js ''package/verification-template/build.gradle''
                     \<or> filename f = js ''package/verification-template/gradle/verification-metadata.xml'')) fs)"
  unfolding classify_def classify_foldl by simp

theorem classify_partition_witness:
  "classify
     [\<lparr>filename = js ''README.md'', status = js ''modified'', raw_url = js ''r1'', previous_filename = None\<rparr>,
      \<lparr>filename = js ''plugins/foo'', status = js ''added'', raw_url = js ''r2'', previous_filename = None\<rparr>,
      \<lparr>filename = js ''package/verification-template/build.gradle'', status = js ''modified'',
        raw_url = js ''r3'', previous_filename = None\<rparr>]
   = ([\<lparr>filename = js ''plugins/foo'', status = js ''added'', raw_url = js ''r2'', previous_filename = None\<rparr>],
      [\<lparr>filename = js ''package/verification-template/build.gradle'', status = js ''modified'',
        raw_url = js ''r3'', previous_filename = None\<rparr>],
      [\<lparr>filename = js ''README.md'', status = js ''modified'', raw_url = js ''r1'', previous_filename = None\<rparr>])"
  using classify_partition
    [of "[\<lparr>filename = js ''README.md'', status = js ''modified'', raw_url = js ''r1'', previous_filename = None\<rparr>,
      \<lparr>filename = js ''plugins/foo'', status = js ''added'', raw_url = js ''r2'', previous_filename = None\<rparr>,
      \<lparr>filename = js ''package/verification-template/build.gradle'', status = js ''modified'',
        raw_url = js ''r3'', previous_filename = None\<rparr>]"]
  by (simp add: js_def)

text \<open>
  Every delivery of a pull request event, completed or failed, leaves the issue without
  \<^verbatim>\<open>ready to merge\<close> (line 36; no later step adds it).
\<close>

theorem pull_request_clears_ready_to_merge:
  "READY_TO_MERGE \<notin> issue_labels (state_of (pull_request ev gh))"
proof -
  have "READY_TO_MERGE \<notin> labels_after ev (issue_labels gh)"
    using label_names_distinct
    by (auto simp: labels_after_def with_label_def split: prod.splits)
  then show ?thesis
    unfolding pull_request_unfold
    by (auto simp: upsert_comment_labels split: prod.splits sum.splits)
qed

theorem pull_request_clears_ready_to_merge_witness:
  "js ''ready to merge'' \<notin> issue_labels (state_of (pull_request
      \<lparr>pr_files = [], repo_owner = js ''runelite'', repo_name = js ''plugin-hub'', web = (\<lambda>u. None)\<rparr>
      \<lparr>issue_labels = {js ''ready to merge'', js ''plugin change''}, issue_comments = []\<rparr>))"
  using pull_request_clears_ready_to_merge
    [of "\<lparr>pr_files = [], repo_owner = js ''runelite'', repo_name = js ''plugin-hub'', web = (\<lambda>u. None)\<rparr>"
        "\<lparr>issue_labels = {js ''ready to merge'', js ''plugin change''}, issue_comments = []\<rparr>"]
  by (simp add: READY_TO_MERGE_def)

text \<open>
  The text for an added plugin file whose content names the repository of
  \<^verbatim>\<open>alice/foo\<close> at commit \<^verbatim>\<open>abc123\<close> (the plugin name is set in backquotes).
\<close>

theorem added_plugin_text:
  "plugin_text
     \<lparr>pr_files = [], repo_owner = js ''runelite'', repo_name = js ''plugin-hub'',
       web = (\<lambda>u. if u = js ''raw/foo''
                   then Some (js ''repository=https://github.com/alice/foo.git\<newline>commit=abc123\<newline>'')
                   else None)\<rparr>
     \<lparr>filename = js ''plugins/foo.plugin'', status = js ''added'', raw_url = js ''raw/foo'',
       previous_filename = None\<rparr>
   = Inr (js ''New plugin `foo.plugin`: https://github.com/alice/foo/tree/abc123'')"
  by (simp add: plugin_text_def request_def bind_result_def readKV_def kv_match_here_def
      js_set_def js_get_def js_string_def line_terminator_def extractURL_def url_match_here_def
      strip_prefix_def dot_git_def js_def)

end
